theory Spec2Isabelle
  imports Complex_Main
begin

section \<open>JavaScript string primitives used by the voice page\<close>

text \<open>
  A JavaScript string is the list of its UTF-16 code units, each an integer from 0 to
  65535: \<open>length\<close>, \<open>slice\<close>, \<open>indexOf\<close> and \<open>includes\<close> count and compare code units.
  \<open>js\<close> turns a literal of ASCII characters into such a list.
\<close>

type_synonym jsstring = "int list"

definition js :: "string \<Rightarrow> jsstring" where
  "js s = map of_char s"

text \<open>
  The code units that \<open>trim\<close> removes and that \<open>\s\<close> matches, the WhiteSpace and
  LineTerminator of ECMAScript: tab, line feed, vertical tab, form feed, carriage
  return, space, U+00A0, U+1680, U+2000 to U+200A, U+2028, U+2029, U+202F, U+205F,
  U+3000 and U+FEFF.
\<close>

definition is_ws :: "int \<Rightarrow> bool" where
  "is_ws c =
     (c \<in> set [9, 10, 11, 12, 13, 32, 160, 5760, 8232, 8233, 8239, 8287, 12288, 65279]
      \<or> (8192 \<le> c \<and> c \<le> 8202))"

text \<open>
  \<open>String.prototype.toLowerCase\<close> follows the Unicode case tables of the platform, which
  are no part of the repository and may change the length of a string: every function
  below that lower-cases takes it as its parameter \<open>toLowerCase\<close>. On a string of ASCII
  code units it turns \<open>A..Z\<close> into \<open>a..z\<close> and leaves the rest, which is
  \<open>ascii_toLowerCase\<close>; \<open>folds_ascii\<close> says of a parameter that it does so.
\<close>

definition ascii_toLowerCase :: "jsstring \<Rightarrow> jsstring" where
  "ascii_toLowerCase s = map (\<lambda>c. if 65 \<le> c \<and> c \<le> 90 then c + 32 else c) s"

definition folds_ascii :: "(jsstring \<Rightarrow> jsstring) \<Rightarrow> bool" where
  "folds_ascii toLowerCase \<longleftrightarrow>
     (\<forall>s. (\<forall>c \<in> set s. c < 128) \<longrightarrow> toLowerCase s = ascii_toLowerCase s)"

definition trimStart :: "jsstring \<Rightarrow> jsstring" where
  "trimStart s = dropWhile is_ws s"

definition trimEnd :: "jsstring \<Rightarrow> jsstring" where
  "trimEnd s = rev (dropWhile is_ws (rev s))"

definition trim :: "jsstring \<Rightarrow> jsstring" where
  "trim s = trimStart (trimEnd s)"

text \<open>\<open>s.split(/\s+/)\<close>: the pieces between maximal runs of white space; a leading or
  trailing run leaves an empty piece, and the empty string splits into one empty piece.\<close>

fun split_ws :: "jsstring \<Rightarrow> jsstring list" where
  "split_ws [] = [[]]"
| "split_ws (c # cs) =
     (if is_ws c then
        (case cs of
           [] \<Rightarrow> [[], []]
         | d # _ \<Rightarrow> if is_ws d then split_ws cs else [] # split_ws cs)
      else
        (case split_ws cs of
           [] \<Rightarrow> [[c]]
         | w # ws \<Rightarrow> (c # w) # ws))"

text \<open>\<open>hay.indexOf(key)\<close>, with \<open>None\<close> for JavaScript's \<open>-1\<close>.\<close>

fun indexOf :: "jsstring \<Rightarrow> jsstring \<Rightarrow> nat option" where
  "indexOf [] key = (if key = [] then Some 0 else None)"
| "indexOf (c # cs) key =
     (if take (length key) (c # cs) = key then Some 0
      else map_option Suc (indexOf cs key))"

definition str_includes :: "jsstring \<Rightarrow> jsstring \<Rightarrow> bool" where
  "str_includes hay key = (indexOf hay key \<noteq> None)"

text \<open>\<open>s.slice(k)\<close> with one argument: a negative \<open>k\<close> counts from the end.\<close>

definition slice_from :: "jsstring \<Rightarrow> int \<Rightarrow> jsstring" where
  "slice_from s k =
     (if k < 0 then drop (nat (max (int (length s) + k) 0)) s else drop (nat k) s)"

text \<open>The words that the overlap heuristics look at: \<open>s.split(/\s+/).filter(w => w.length > 2)\<close>.\<close>

definition long_words :: "jsstring \<Rightarrow> jsstring list" where
  "long_words s = filter (\<lambda>w. length w > 2) (split_ws s)"

text \<open>The counting loop \<open>for (const word of inputWords) if (responseWords.has(word)) matchCount++\<close>.\<close>

definition match_count :: "jsstring list \<Rightarrow> jsstring list \<Rightarrow> nat" where
  "match_count inputWords responseWords =
     length (filter (\<lambda>w. w \<in> set responseWords) inputWords)"

section \<open>Echo classifier\<close>

text \<open>
  The two mutable cells the classifier reads:
  \<open>lastAssistantTextRef\<close> and \<open>assistantUtterancesRef\<close>. Both functions build the same
  candidate list
  \<open>[lastAssistantTextRef.current, ...assistantUtterancesRef.current].map(s => s.toLowerCase().trim()).filter(Boolean)\<close>.
\<close>

definition echo_candidates :: "(jsstring \<Rightarrow> jsstring) \<Rightarrow> jsstring \<Rightarrow> jsstring list \<Rightarrow> jsstring list" where
  "echo_candidates toLowerCase lastAssistantText assistantUtterances =
     filter (\<lambda>s. s \<noteq> [])
       (map (\<lambda>s. trim (toLowerCase s)) (lastAssistantText # assistantUtterances))"

text \<open>The \<open>for (const candidate of candidates)\<close> loop of \<open>assistantEchoOverlapRatio\<close>, with
  \<open>bestRatio\<close> as accumulator. Ratios are exact rationals: a quotient of two small
  naturals compares with 0.35, 0.6, 0.85 and 0.9 as its double does.\<close>

fun overlap_loop :: "jsstring list \<Rightarrow> rat \<Rightarrow> jsstring list \<Rightarrow> rat" where
  "overlap_loop inputWords bestRatio [] = bestRatio"
| "overlap_loop inputWords bestRatio (candidate # rest) =
     (let responseWords = long_words candidate in
      if length (remdups responseWords) < 2 then overlap_loop inputWords bestRatio rest
      else
        let matchCount = match_count inputWords responseWords;
            ratio = of_nat matchCount / of_nat (length inputWords);
            best = (if ratio > bestRatio then ratio else bestRatio)
        in if best \<ge> 9 / 10 then best else overlap_loop inputWords best rest)"

definition assistantEchoOverlapRatio ::
  "(jsstring \<Rightarrow> jsstring) \<Rightarrow> jsstring \<Rightarrow> jsstring list \<Rightarrow> jsstring \<Rightarrow> rat" where
  "assistantEchoOverlapRatio toLowerCase lastAssistantText assistantUtterances text =
     (let normalizedText = trim (toLowerCase text) in
      if normalizedText = [] then 0
      else
        let inputWords = long_words normalizedText in
        if length inputWords < 2 then 0
        else overlap_loop inputWords 0
               (echo_candidates toLowerCase lastAssistantText assistantUtterances))"

text \<open>The \<open>while\<close> loop that measures the shared prefix of two strings.\<close>

fun shared_prefix_len :: "jsstring \<Rightarrow> jsstring \<Rightarrow> nat" where
  "shared_prefix_len (a # as) (b # bs) = (if a = b then Suc (shared_prefix_len as bs) else 0)"
| "shared_prefix_len _ _ = 0"

fun strip_loop :: "jsstring \<Rightarrow> jsstring \<Rightarrow> jsstring \<Rightarrow> jsstring list \<Rightarrow> jsstring" where
  "strip_loop text lower normalized [] = text"
| "strip_loop text lower normalized (candidate # rest) =
     (if length normalized > 10 \<and> str_includes candidate normalized then []
      else
        let prefixLen = shared_prefix_len normalized candidate in
        if prefixLen \<ge> 18 then
          trimStart (slice_from text (int (length text) - (int (length lower) - int prefixLen)))
        else
          let key = take 48 candidate in
          (case (if length key \<ge> 24 then indexOf normalized key else None) of
             Some idx \<Rightarrow>
               if idx \<le> 5 then
                 let cut = idx + length key in
                 trimStart (slice_from text (int (length text) - (int (length lower) - int cut)))
               else strip_loop text lower normalized rest
           | None \<Rightarrow> strip_loop text lower normalized rest))"

definition stripAssistantEchoFromText ::
  "(jsstring \<Rightarrow> jsstring) \<Rightarrow> jsstring \<Rightarrow> jsstring list \<Rightarrow> jsstring \<Rightarrow> jsstring" where
  "stripAssistantEchoFromText toLowerCase lastAssistantText assistantUtterances text =
     (let lower = toLowerCase text; normalized = trim lower in
      if normalized = [] then []
      else strip_loop text lower normalized
             (echo_candidates toLowerCase lastAssistantText assistantUtterances))"

section \<open>The state of the voice page\<close>

datatype voice_mode = PushToTalk | Continuous

datatype voice_state = Idle | Listening | Thinking | Speaking | Working

datatype role = User | Assistant

record transcript_entry =
  entry_id :: nat
  entry_role :: role
  entry_text :: jsstring
  timestamp :: int
  isFinal :: bool

text \<open>
  Calls into the platform, in the order in which a handler makes them. Recognizers,
  audio elements, abort controllers, object URLs, media streams and timers are named by
  numbers; a timer handle is positive, so the truthiness test on \<open>vadIntervalRef.current\<close>
  is the test against \<open>null\<close>.
\<close>

datatype timer_action = StartRecognition | ClearLastAssistantText

datatype effect =
    AbortCall nat
  | RecognitionDetach nat
  | RecognitionStop nat
  | RecognitionStart nat
  | AudioDetach nat
  | AudioPause nat
  | AudioClearSrc nat
  | RevokeObjectURL nat
  | ClearIntervalCall nat
  | SetIntervalCall nat nat
  | SetTimeoutCall timer_action nat
  | AudioContextClose nat
  | TrackStop nat
  | ToastError jsstring jsstring
  | ChatRequest jsstring nat

text \<open>One field for every \<open>useState\<close> cell and every \<open>useRef\<close> cell of
  \<open>VoicePageContent\<close> that the handlers below touch, and the log of platform calls.\<close>

record session =
  mode :: voice_mode
  isProcessing :: bool
  state :: voice_state
  transcripts :: "transcript_entry list"
  recognitionRef :: "nat option"
  lastTranscriptRef :: jsstring
  processingRef :: bool
  isSpeakingRef :: bool
  audioRef :: "nat option"
  audioUrlRef :: "nat option"
  audioCancelledRef :: bool
  suspendRecognitionRef :: bool
  ignoreRecognitionUntilRef :: int
  micStreamRef :: "nat option"
  audioContextRef :: "nat option"
  analyserRef :: "nat option"
  vadIntervalRef :: "nat option"
  vadConsecutiveRef :: nat
  ttsAbortRef :: "nat option"
  queryAbortRef :: "nat option"
  lastAssistantTextRef :: jsstring
  assistantUtterancesRef :: "jsstring list"
  ttsStartTimeRef :: int
  ttsEndTimeRef :: int
  stateRef :: voice_state
  modeRef :: voice_mode
  stoppedRef :: bool
  effects :: "effect list"

text \<open>The initial values of the cells.\<close>

definition initial_session :: session where
  "initial_session =
     \<lparr> mode = Continuous, isProcessing = False, state = Idle, transcripts = [],
       recognitionRef = None, lastTranscriptRef = [], processingRef = False,
       isSpeakingRef = False, audioRef = None, audioUrlRef = None,
       audioCancelledRef = False, suspendRecognitionRef = False,
       ignoreRecognitionUntilRef = 0, micStreamRef = None, audioContextRef = None,
       analyserRef = None, vadIntervalRef = None, vadConsecutiveRef = 0,
       ttsAbortRef = None, queryAbortRef = None, lastAssistantTextRef = [],
       assistantUtterancesRef = [], ttsStartTimeRef = 0, ttsEndTimeRef = 0,
       stateRef = Idle, modeRef = Continuous, stoppedRef = False, effects = [] \<rparr>"

text \<open>What the platform hands to one run of a handler: \<open>Date.now()\<close>, \<open>uuidv4()\<close> and the
  identity of a \<open>new AbortController()\<close>.\<close>

record env =
  now :: int
  uuid :: nat
  controller :: nat

subsection \<open>Platform calls that may throw\<close>

text \<open>
  A call of a recognizer, an audio element, an abort controller, \<open>URL.revokeObjectURL\<close>
  or \<open>clearInterval\<close> either returns, and is logged, or throws, as the parameter
  \<open>throws\<close> decides. A throw inside a \<open>try\<close> block leaves the block with the state
  reached so far; a throw outside every \<open>try\<close> block ends the handler, whose result is
  then \<open>Threw\<close>. \<open>setTimeout\<close>, \<open>setInterval\<close>, the toast and the chat call (an \<open>async\<close>
  function, whose failure is a rejected promise) return.
\<close>

datatype outcome = Normal session | Threw session

definition log_call :: "effect \<Rightarrow> session \<Rightarrow> session" where
  "log_call e s = s\<lparr>effects := effects s @ [e]\<rparr>"

definition call :: "(effect \<Rightarrow> bool) \<Rightarrow> effect \<Rightarrow> session \<Rightarrow> outcome" where
  "call throws e s = (if throws e then Threw s else Normal (log_call e s))"

definition and_then :: "outcome \<Rightarrow> (session \<Rightarrow> outcome) \<Rightarrow> outcome" where
  "and_then r f = (case r of Normal s \<Rightarrow> f s | Threw s \<Rightarrow> Threw s)"

text \<open>\<open>try { ... } catch { /* Ignore */ }\<close>\<close>

definition catch_ignore :: "outcome \<Rightarrow> session" where
  "catch_ignore r = (case r of Normal s \<Rightarrow> s | Threw s \<Rightarrow> s)"

section \<open>addTranscript\<close>

definition addTranscript ::
  "nat \<Rightarrow> int \<Rightarrow> role \<Rightarrow> jsstring \<Rightarrow> bool \<Rightarrow> transcript_entry list \<Rightarrow> transcript_entry list" where
  "addTranscript new_id new_ts r txt fin prev =
     (if r = User \<and> \<not> fin \<and> prev \<noteq> [] \<and> \<not> isFinal (last prev) \<and> entry_role (last prev) = User
      then map (\<lambda>(i, t). if i = length prev - 1 then t\<lparr>entry_text := txt, isFinal := fin\<rparr> else t)
             (enumerate 0 prev)
      else prev @ [\<lparr>entry_id = new_id, entry_role = r, entry_text = txt,
                    timestamp = new_ts, isFinal = fin\<rparr>])"

section \<open>isSimilarToLastResponse\<close>

fun similar_loop :: "jsstring \<Rightarrow> jsstring list \<Rightarrow> bool" where
  "similar_loop normalizedText [] = False"
| "similar_loop normalizedText (candidate # rest) =
     (if (str_includes candidate normalizedText \<or> str_includes normalizedText (take 24 candidate))
         \<and> length normalizedText > 3 then True
      else
        let inputWords = long_words normalizedText;
            responseWords = long_words candidate
        in if length inputWords < 2 \<or> length (remdups responseWords) < 2
           then similar_loop normalizedText rest
           else if (of_nat (match_count inputWords responseWords) :: rat) / of_nat (length inputWords) > 1 / 2
           then True
           else similar_loop normalizedText rest)"

definition isSimilarToLastResponse ::
  "(jsstring \<Rightarrow> jsstring) \<Rightarrow> int \<Rightarrow> session \<Rightarrow> jsstring \<Rightarrow> bool" where
  "isSimilarToLastResponse toLowerCase t s txt =
     (let echoWindowMs = 6000;
          ttsEndedAt = ttsEndTimeRef s;
          ttsStartedAt = ttsStartTimeRef s;
          withinWindow =
            ((ttsEndedAt > 0 \<and> t - ttsEndedAt \<le> echoWindowMs) \<or>
             (ttsEndedAt = 0 \<and> ttsStartedAt > 0 \<and> t - ttsStartedAt \<le> echoWindowMs + 2000))
      in if \<not> withinWindow then False
         else
           let normalizedText = trim (toLowerCase txt) in
           if normalizedText = [] then False
           else similar_loop normalizedText
                  (echo_candidates toLowerCase (lastAssistantTextRef s) (assistantUtterancesRef s)))"

section \<open>Turn processor: processUserInput\<close>

text \<open>
  \<open>processUserInput\<close> is an \<open>async\<close> function with two suspension points, the chat call
  and \<open>playTTS\<close>. Each piece between two suspension points is one function here:
  \<open>processUserInput\<close> runs up to the chat call, \<open>processUserInput_resolved\<close> from the
  answer up to \<open>playTTS\<close>, \<open>processUserInput_after_tts\<close> from the end of \<open>playTTS\<close>
  (which catches its own failure) to the end, and \<open>processUserInput_catch\<close> is the
  \<open>catch\<close> block that a rejected chat call reaches. Every piece that ends the function
  runs the \<open>finally\<close> block last. What \<open>playTTS\<close> does to the cells in between is not
  part of this model: the piece after it takes whatever session it finds.
\<close>

definition processUserInput_finally :: "session \<Rightarrow> session" where
  "processUserInput_finally s = s\<lparr>processingRef := False, isProcessing := False\<rparr>"

definition processUserInput :: "(effect \<Rightarrow> bool) \<Rightarrow> env \<Rightarrow> jsstring \<Rightarrow> session \<Rightarrow> session" where
  "processUserInput throws e txt s =
     (if processingRef s \<or> trim txt = [] then s
      else if stoppedRef s \<or> stateRef s = Idle then s
      else
        let s1 = s\<lparr>processingRef := True, isProcessing := True\<rparr>;
            currentMode = modeRef s1;
            s2 = (case recognitionRef s1 of
                    Some r \<Rightarrow>
                      if currentMode = PushToTalk
                      then catch_ignore (call throws (RecognitionStop r) (s1\<lparr>suspendRecognitionRef := True\<rparr>))
                      else s1
                  | None \<Rightarrow> s1);
            s3 = (if currentMode \<noteq> Continuous then s2\<lparr>state := Thinking\<rparr> else s2);
            s4 = (case queryAbortRef s3 of
                    Some c \<Rightarrow> catch_ignore (call throws (AbortCall c) s3)
                  | None \<Rightarrow> s3);
            s5 = s4\<lparr>queryAbortRef := Some (controller e)\<rparr>
        in log_call (ChatRequest txt (controller e)) s5)"

text \<open>The chat call resolved with \<open>response.answer = answer\<close> (the empty string stands for
  every falsy answer). The result is the session and, when the function goes on to
  \<open>await playTTS(answer)\<close>, the \<open>currentMode\<close> that the rest of the block will use.\<close>

definition processUserInput_resolved :: "env \<Rightarrow> jsstring \<Rightarrow> session \<Rightarrow> session \<times> voice_mode option" where
  "processUserInput_resolved e answer s =
     (if stoppedRef s \<or> stateRef s = Idle then (processUserInput_finally s, None)
      else if answer = [] then (processUserInput_finally s, None)
      else
        let s1 = s\<lparr>lastAssistantTextRef := answer\<rparr>;
            s2 = s1\<lparr>assistantUtterancesRef := take 3 (answer # assistantUtterancesRef s1)\<rparr>;
            s3 = s2\<lparr>transcripts := addTranscript (uuid e) (now e) Assistant answer True (transcripts s2)\<rparr>;
            currentMode = modeRef s3;
            s4 = (if currentMode = Continuous then s3\<lparr>state := Listening\<rparr> else s3\<lparr>state := Speaking\<rparr>)
        in (s4, Some currentMode))"

definition processUserInput_after_tts :: "env \<Rightarrow> voice_mode \<Rightarrow> session \<Rightarrow> session" where
  "processUserInput_after_tts e currentMode s =
     (if stoppedRef s \<or> stateRef s = Idle then processUserInput_finally s
      else
        let s1 = log_call (SetTimeoutCall ClearLastAssistantText 12000) s;
            s2 = s1\<lparr>state := Listening\<rparr>;
            s3 = (if currentMode = PushToTalk \<and> recognitionRef s2 \<noteq> None
                  then log_call (SetTimeoutCall StartRecognition 200)
                         (s2\<lparr>suspendRecognitionRef := False,
                             ignoreRecognitionUntilRef := now e + 900\<rparr>)
                  else s2)
        in processUserInput_finally s3)"

text \<open>The \<open>catch\<close> block; \<open>msg\<close> is the message that \<open>getFriendlyError\<close> puts under the
  title \<open>Request failed\<close>.\<close>

definition processUserInput_catch :: "(effect \<Rightarrow> bool) \<Rightarrow> env \<Rightarrow> jsstring \<Rightarrow> session \<Rightarrow> session" where
  "processUserInput_catch throws e msg s =
     (if stoppedRef s then processUserInput_finally s
      else
        let s1 = log_call (ToastError (js ''Request failed'') msg) s;
            s2 = (if \<not> stoppedRef s1 \<and> stateRef s1 \<noteq> Idle then
                    let s3 = s1\<lparr>state := Listening\<rparr>;
                        s4 = s3\<lparr>suspendRecognitionRef := False\<rparr>
                    in (case recognitionRef s4 of
                          Some r \<Rightarrow>
                            if modeRef s4 = PushToTalk
                            then catch_ignore
                                   (call throws (RecognitionStart r)
                                      (s4\<lparr>ignoreRecognitionUntilRef := now e + 900\<rparr>))
                            else s4
                        | None \<Rightarrow> s4)
                  else s1)
        in processUserInput_finally s2)"

text \<open>The callbacks handed to \<open>setTimeout\<close>.\<close>

definition timeout_clear_last_assistant_text :: "session \<Rightarrow> session" where
  "timeout_clear_last_assistant_text s = s\<lparr>lastAssistantTextRef := []\<rparr>"

definition timeout_start_recognition :: "(effect \<Rightarrow> bool) \<Rightarrow> session \<Rightarrow> session" where
  "timeout_start_recognition throws s =
     (case recognitionRef s of
        Some r \<Rightarrow> if \<not> stoppedRef s then catch_ignore (call throws (RecognitionStart r) s) else s
      | None \<Rightarrow> s)"

section \<open>Recognizer callbacks\<close>

record recognition_event =
  ev_transcript :: jsstring
  ev_isFinal :: bool

text \<open>The block of \<open>recognition.onresult\<close> that runs during the tail-echo window:
  \<open>None\<close> is the handler's \<open>return\<close>, \<open>Some t\<close> the text it goes on with.\<close>

definition echo_sanitize ::
  "(jsstring \<Rightarrow> jsstring) \<Rightarrow> int \<Rightarrow> session \<Rightarrow> jsstring \<Rightarrow> jsstring option" where
  "echo_sanitize toLowerCase t s txt =
     (if ignoreRecognitionUntilRef s \<noteq> 0 \<and> t < ignoreRecognitionUntilRef s then
        let overlap = assistantEchoOverlapRatio toLowerCase (lastAssistantTextRef s)
                        (assistantUtterancesRef s) txt in
        if overlap \<ge> 85 / 100 then None
        else if overlap \<ge> 35 / 100 then
          let cleaned = stripAssistantEchoFromText toLowerCase (lastAssistantTextRef s)
                          (assistantUtterancesRef s) txt in
          if cleaned = [] then None else Some cleaned
        else Some txt
      else Some txt)"

text \<open>The rest of \<open>recognition.onresult\<close>, from \<open>const currentMode = modeRef.current\<close> on,
  for the text that the block above lets through. The \<open>recognition.stop()\<close> of
  push-to-talk mode stands outside every \<open>try\<close> block: when it throws, the handler ends
  there and \<open>processUserInput\<close> is not called.\<close>

definition onresult_guarded ::
  "(effect \<Rightarrow> bool) \<Rightarrow> (jsstring \<Rightarrow> jsstring) \<Rightarrow> env \<Rightarrow> nat \<Rightarrow> jsstring \<Rightarrow> bool \<Rightarrow> session
     \<Rightarrow> outcome" where
  "onresult_guarded throws toLowerCase e recognition txt fin s =
     (let currentMode = modeRef s in
      if currentMode = PushToTalk \<and> (stateRef s \<noteq> Listening \<or> processingRef s) then Normal s
      else if isSpeakingRef s then Normal s
      else if isSimilarToLastResponse toLowerCase (now e) s txt then Normal s
      else
        let s1 = s\<lparr>transcripts := addTranscript (uuid e) (now e) User txt fin (transcripts s)\<rparr> in
        if fin \<and> \<not> processingRef s1 \<and> trim txt \<noteq> [] then
          let s2 = s1\<lparr>lastTranscriptRef := txt\<rparr> in
          if ignoreRecognitionUntilRef s2 \<noteq> 0 \<and> now e < ignoreRecognitionUntilRef s2 \<and>
             assistantEchoOverlapRatio toLowerCase (lastAssistantTextRef s2)
               (assistantUtterancesRef s2) txt \<ge> 6 / 10
          then Normal s2
          else if currentMode = PushToTalk then
            and_then (call throws (RecognitionStop recognition) (s2\<lparr>suspendRecognitionRef := True\<rparr>))
              (\<lambda>s3. Normal (processUserInput throws e txt s3))
          else Normal (processUserInput throws e txt s2)
        else Normal s1)"

definition onresult ::
  "(effect \<Rightarrow> bool) \<Rightarrow> (jsstring \<Rightarrow> jsstring) \<Rightarrow> env \<Rightarrow> nat \<Rightarrow> recognition_event \<Rightarrow> session
     \<Rightarrow> outcome" where
  "onresult throws toLowerCase e recognition ev s =
     (if stoppedRef s \<or> stateRef s = Idle then Normal s
      else if suspendRecognitionRef s then Normal s
      else
        (case echo_sanitize toLowerCase (now e) s (trim (ev_transcript ev)) of
           None \<Rightarrow> Normal s
         | Some txt \<Rightarrow> onresult_guarded throws toLowerCase e recognition txt (ev_isFinal ev) s))"

definition onend :: "(effect \<Rightarrow> bool) \<Rightarrow> nat \<Rightarrow> session \<Rightarrow> session" where
  "onend throws recognition s =
     (let currentState = stateRef s; wasStopped = stoppedRef s in
      if suspendRecognitionRef s then s
      else if modeRef s = PushToTalk then s
      else if recognitionRef s = Some recognition \<and> \<not> wasStopped \<and> currentState \<noteq> Idle
      then catch_ignore (call throws (RecognitionStart recognition) s)
      else s)"

section \<open>The effects that follow a render\<close>

text \<open>
  After a render React runs the effect that copies \<open>state\<close> into \<open>stateRef\<close> when \<open>state\<close>
  has changed, and then, when \<open>mode\<close> or \<open>state\<close> has changed, the effect that copies
  \<open>mode\<close> into \<open>modeRef\<close> and calls \<open>stop()\<close> on the recognizer if there is one and the
  state is not \<open>idle\<close>. \<open>rendered\<close> is the session as the previous render saw it.
\<close>

definition render_effects :: "(effect \<Rightarrow> bool) \<Rightarrow> session \<Rightarrow> session \<Rightarrow> outcome" where
  "render_effects throws rendered s =
     (let s1 = (if state s \<noteq> state rendered then s\<lparr>stateRef := state s\<rparr> else s) in
      if mode s1 \<noteq> mode rendered \<or> state s1 \<noteq> state rendered then
        let s2 = s1\<lparr>modeRef := mode s1\<rparr> in
        (case recognitionRef s2 of
           Some r \<Rightarrow> if state s2 \<noteq> Idle then call throws (RecognitionStop r) s2 else Normal s2
         | None \<Rightarrow> Normal s2)
      else Normal s1)"

section \<open>Activity monitor\<close>

definition stopBargeInMonitor :: "(effect \<Rightarrow> bool) \<Rightarrow> session \<Rightarrow> session" where
  "stopBargeInMonitor throws s =
     (let s1 = catch_ignore
                 (case vadIntervalRef s of
                    Some h \<Rightarrow>
                      and_then (call throws (ClearIntervalCall h) s)
                        (\<lambda>s'. Normal (s'\<lparr>vadIntervalRef := None\<rparr>))
                  | None \<Rightarrow> Normal s)
      in s1\<lparr>vadConsecutiveRef := 0\<rparr>)"



definition startBargeInMonitor_denied :: "(effect \<Rightarrow> bool) \<Rightarrow> session \<Rightarrow> session" where
  "startBargeInMonitor_denied throws s = stopBargeInMonitor throws s"





section \<open>Teardown: stop and the unmount cleanup\<close>

text \<open>The \<open>try\<close> blocks of \<open>stop\<close>, one definition each, in the order of the source.\<close>

text \<open>\<open>try { queryAbortRef.current?.abort() } catch {} finally { queryAbortRef.current = null }\<close>\<close>

definition abort_query :: "(effect \<Rightarrow> bool) \<Rightarrow> session \<Rightarrow> session" where
  "abort_query throws s =
     (catch_ignore
        (case queryAbortRef s of
           Some c \<Rightarrow> call throws (AbortCall c) s
         | None \<Rightarrow> Normal s))\<lparr>queryAbortRef := None\<rparr>"

definition abort_tts :: "(effect \<Rightarrow> bool) \<Rightarrow> session \<Rightarrow> session" where
  "abort_tts throws s =
     (catch_ignore
        (case ttsAbortRef s of
           Some c \<Rightarrow> call throws (AbortCall c) s
         | None \<Rightarrow> Normal s))\<lparr>ttsAbortRef := None\<rparr>"

text \<open>Detach \<open>onend\<close>, \<open>onerror\<close> and \<open>onresult\<close>, call \<open>stop()\<close>; \<open>finally\<close> forget the recognizer.\<close>

definition stop_recognition :: "(effect \<Rightarrow> bool) \<Rightarrow> session \<Rightarrow> session" where
  "stop_recognition throws s =
     (catch_ignore
        (case recognitionRef s of
           Some r \<Rightarrow> call throws (RecognitionStop r) (log_call (RecognitionDetach r) s)
         | None \<Rightarrow> Normal s))\<lparr>recognitionRef := None\<rparr>"

text \<open>Detach \<open>onended\<close>, \<open>onerror\<close> and \<open>onpause\<close>, \<open>pause()\<close>, clear \<open>src\<close>; \<open>finally\<close> forget
  the audio element.\<close>

definition stop_audio :: "(effect \<Rightarrow> bool) \<Rightarrow> session \<Rightarrow> session" where
  "stop_audio throws s =
     (catch_ignore
        (case audioRef s of
           Some a \<Rightarrow>
             and_then (call throws (AudioPause a) (log_call (AudioDetach a) s))
               (call throws (AudioClearSrc a))
         | None \<Rightarrow> Normal s))\<lparr>audioRef := None\<rparr>"

definition revoke_audio_url :: "(effect \<Rightarrow> bool) \<Rightarrow> session \<Rightarrow> session" where
  "revoke_audio_url throws s =
     catch_ignore
       (case audioUrlRef s of
          Some u \<Rightarrow>
            and_then (call throws (RevokeObjectURL u) s)
              (\<lambda>s'. Normal (s'\<lparr>audioUrlRef := None\<rparr>))
        | None \<Rightarrow> Normal s)"

definition stop :: "(effect \<Rightarrow> bool) \<Rightarrow> session \<Rightarrow> session" where
  "stop throws s =
     (let s1 = s\<lparr>stoppedRef := True\<rparr>;
          s2 = s1\<lparr>audioCancelledRef := True\<rparr>;
          s3 = s2\<lparr>stateRef := Idle\<rparr>;
          s4 = abort_query throws s3;
          s5 = abort_tts throws s4;
          s6 = stop_recognition throws s5;
          s7 = stop_audio throws s6;
          s8 = revoke_audio_url throws s7;
          s9 = s8\<lparr>isSpeakingRef := False\<rparr>;
          s10 = s9\<lparr>suspendRecognitionRef := False\<rparr>;
          s11 = stopBargeInMonitor throws s10;
          s12 = s11\<lparr>processingRef := False\<rparr>;
          s13 = s12\<lparr>lastTranscriptRef := []\<rparr>;
          s14 = s13\<lparr>lastAssistantTextRef := []\<rparr>;
          s15 = s14\<lparr>state := Idle\<rparr>
      in s15\<lparr>isProcessing := False\<rparr>)"

text \<open>
  The cleanup that the component returns from its mount effect. Its blocks for the
  timer, the audio context and the microphone stream come first; its blocks for the
  recognizer and the audio element forget the object inside the \<open>try\<close>, not in a
  \<open>finally\<close>.
\<close>

definition clear_vad_interval :: "(effect \<Rightarrow> bool) \<Rightarrow> session \<Rightarrow> session" where
  "clear_vad_interval throws s =
     catch_ignore
       (case vadIntervalRef s of
          Some h \<Rightarrow>
            and_then (call throws (ClearIntervalCall h) s)
              (\<lambda>s'. Normal (s'\<lparr>vadIntervalRef := None\<rparr>))
        | None \<Rightarrow> Normal s)"

definition close_audio_context :: "(effect \<Rightarrow> bool) \<Rightarrow> session \<Rightarrow> session" where
  "close_audio_context throws s =
     catch_ignore
       (case audioContextRef s of
          Some c \<Rightarrow>
            and_then (call throws (AudioContextClose c) s)
              (\<lambda>s'. Normal (s'\<lparr>audioContextRef := None\<rparr>))
        | None \<Rightarrow> Normal s)"

text \<open>\<open>for (const track of micStreamRef.current.getTracks()) track.stop()\<close>, one call for
  the whole stream, then \<open>micStreamRef.current = null\<close>.\<close>

definition release_mic_stream :: "(effect \<Rightarrow> bool) \<Rightarrow> session \<Rightarrow> session" where
  "release_mic_stream throws s =
     catch_ignore
       (case micStreamRef s of
          Some m \<Rightarrow>
            and_then (call throws (TrackStop m) s)
              (\<lambda>s'. Normal (s'\<lparr>micStreamRef := None\<rparr>))
        | None \<Rightarrow> Normal s)"

definition unmount_recognition :: "(effect \<Rightarrow> bool) \<Rightarrow> session \<Rightarrow> session" where
  "unmount_recognition throws s =
     catch_ignore
       (case recognitionRef s of
          Some r \<Rightarrow>
            and_then (call throws (RecognitionStop r) (log_call (RecognitionDetach r) s))
              (\<lambda>s'. Normal (s'\<lparr>recognitionRef := None\<rparr>))
        | None \<Rightarrow> Normal s)"

definition unmount_audio :: "(effect \<Rightarrow> bool) \<Rightarrow> session \<Rightarrow> session" where
  "unmount_audio throws s =
     catch_ignore
       (case audioRef s of
          Some a \<Rightarrow>
            and_then
              (and_then (call throws (AudioPause a) (log_call (AudioDetach a) s))
                 (call throws (AudioClearSrc a)))
              (\<lambda>s'. Normal (s'\<lparr>audioRef := None\<rparr>))
        | None \<Rightarrow> Normal s)"

definition unmount_cleanup :: "(effect \<Rightarrow> bool) \<Rightarrow> session \<Rightarrow> session" where
  "unmount_cleanup throws s =
     (let s1 = s\<lparr>stoppedRef := True\<rparr>;
          s2 = s1\<lparr>audioCancelledRef := True\<rparr>;
          s3 = clear_vad_interval throws s2;
          s4 = close_audio_context throws s3;
          s5 = release_mic_stream throws s4;
          s6 = abort_query throws s5;
          s7 = abort_tts throws s6;
          s8 = unmount_recognition throws s7;
          s9 = unmount_audio throws s8
      in revoke_audio_url throws s9)"

section \<open>Derived notions and concrete sessions\<close>

definition balance_utterance :: jsstring where
  "balance_utterance = js ''Your balance is five hundred rupees''"

definition balance_and_ticket :: jsstring where
  "balance_and_ticket = js ''Your balance is five hundred rupees and I need a ticket''"

text \<open>A continuous-mode session in \<open>listening\<close>, 400 ms into the 900 ms tail-echo window
  that followed the playback of \<open>balance_utterance\<close>.\<close>

definition after_balance_session :: session where
  "after_balance_session =
     initial_session
       \<lparr> state := Listening, stateRef := Listening, recognitionRef := Some 1,
         lastAssistantTextRef := balance_utterance,
         assistantUtterancesRef := [balance_utterance],
         ttsStartTimeRef := 1000, ttsEndTimeRef := 5000,
         ignoreRecognitionUntilRef := 5900 \<rparr>"

text \<open>A run of \<open>addTranscript\<close> calls, each with the identifier and the time stamp it
  draws, applied one after the other as \<open>setTranscripts\<close> applies its updaters.\<close>

record add_call =
  call_id :: nat
  call_ts :: int
  call_role :: role
  call_text :: jsstring
  call_final :: bool

fun addTranscripts :: "add_call list \<Rightarrow> transcript_entry list \<Rightarrow> transcript_entry list" where
  "addTranscripts [] prev = prev"
| "addTranscripts (c # cs) prev =
     addTranscripts cs
       (addTranscript (call_id c) (call_ts c) (call_role c) (call_text c) (call_final c) prev)"

definition interim_entry :: transcript_entry where
  "interim_entry =
     \<lparr>entry_id = 1, entry_role = User, entry_text = (js ''what is''), timestamp = 10, isFinal = False\<rparr>"

definition later_calls :: "add_call list" where
  "later_calls =
     [\<lparr>call_id = 4, call_ts = 40, call_role = Assistant, call_text = (js ''Your balance is 500 rupees''),
        call_final = True\<rparr>,
      \<lparr>call_id = 5, call_ts = 50, call_role = User, call_text = (js ''wait''), call_final = False\<rparr>,
      \<lparr>call_id = 6, call_ts = 60, call_role = User, call_text = (js ''wait a moment''), call_final = True\<rparr>]"

text \<open>The platform calls that \<open>stop\<close> makes from a session, read off its blocks in order;
  a call that throws is not logged.\<close>

definition stop_effects :: "(effect \<Rightarrow> bool) \<Rightarrow> session \<Rightarrow> effect list" where
  "stop_effects throws s =
     (case queryAbortRef s of
        Some c \<Rightarrow> if throws (AbortCall c) then [] else [AbortCall c]
      | None \<Rightarrow> [])
   @ (case ttsAbortRef s of
        Some c \<Rightarrow> if throws (AbortCall c) then [] else [AbortCall c]
      | None \<Rightarrow> [])
   @ (case recognitionRef s of
        Some r \<Rightarrow> RecognitionDetach r # (if throws (RecognitionStop r) then [] else [RecognitionStop r])
      | None \<Rightarrow> [])
   @ (case audioRef s of
        Some a \<Rightarrow>
          AudioDetach a #
          (if throws (AudioPause a) then []
           else AudioPause a # (if throws (AudioClearSrc a) then [] else [AudioClearSrc a]))
      | None \<Rightarrow> [])
   @ (case audioUrlRef s of
        Some u \<Rightarrow> if throws (RevokeObjectURL u) then [] else [RevokeObjectURL u]
      | None \<Rightarrow> [])
   @ (case vadIntervalRef s of
        Some h \<Rightarrow> if throws (ClearIntervalCall h) then [] else [ClearIntervalCall h]
      | None \<Rightarrow> [])"

text \<open>No platform call throws.\<close>

definition no_throw :: "effect \<Rightarrow> bool" where
  "no_throw e = False"

text \<open>A push-to-talk session in \<open>thinking\<close>: the chat call with controller 9 is
  outstanding and the recognizer is suspended.\<close>

definition thinking_session :: session where
  "thinking_session =
     initial_session
       \<lparr> mode := PushToTalk, modeRef := PushToTalk, state := Thinking, stateRef := Thinking,
         isProcessing := True, processingRef := True, recognitionRef := Some 1,
         suspendRecognitionRef := True, queryAbortRef := Some 9,
         lastTranscriptRef := (js ''what is my balance'') \<rparr>"

text \<open>A continuous-mode session during playback: the audio element 2 plays the object URL
  3, the activity monitor holds the microphone stream 4, the audio context 5, the
  analyser 6 and the timer 7, and the recognizer is suspended.\<close>

definition speaking_session :: session where
  "speaking_session =
     initial_session
       \<lparr> state := Listening, stateRef := Listening, isProcessing := True, processingRef := True,
         recognitionRef := Some 1, audioRef := Some 2, audioUrlRef := Some 3,
         isSpeakingRef := True, suspendRecognitionRef := True, micStreamRef := Some 4,
         audioContextRef := Some 5, analyserRef := Some 6, vadIntervalRef := Some 7,
         ttsAbortRef := Some 8, queryAbortRef := Some 9,
         lastAssistantTextRef := balance_utterance,
         assistantUtterancesRef := [balance_utterance], ttsStartTimeRef := 1000 \<rparr>"

text \<open>A continuous-mode session in \<open>listening\<close> with no turn yet.\<close>

definition listening_session :: session where
  "listening_session =
     initial_session \<lparr> state := Listening, stateRef := Listening, recognitionRef := Some 1 \<rparr>"

text \<open>One whole turn in continuous mode from \<open>listening_session\<close>: the question at time
  1000, the answer at 2000, the end of playback at 5000, and then the callback of the
  12-second timer.\<close>

definition turn_asked :: session where
  "turn_asked =
     processUserInput no_throw \<lparr>now = 1000, uuid = 1, controller = 9\<rparr> (js ''what is my balance'')
       listening_session"

definition turn_answered :: session where
  "turn_answered =
     fst (processUserInput_resolved \<lparr>now = 2000, uuid = 2, controller = 10\<rparr> balance_utterance
            turn_asked)"

definition turn_finished :: session where
  "turn_finished =
     processUserInput_after_tts \<lparr>now = 5000, uuid = 3, controller = 11\<rparr> Continuous turn_answered"

definition turn_timer_fired :: session where
  "turn_timer_fired = timeout_clear_last_assistant_text turn_finished"

text \<open>The platform calls of \<open>processUserInput\<close> before the chat request: the stop of
  the recognizer in push-to-talk mode and the abort of the previous query controller.\<close>

definition recognition_stop_effects :: "(effect \<Rightarrow> bool) \<Rightarrow> session \<Rightarrow> effect list" where
  "recognition_stop_effects throws s =
     (case recognitionRef s of
        Some r \<Rightarrow> if modeRef s = PushToTalk \<and> \<not> throws (RecognitionStop r) then [RecognitionStop r] else []
      | None \<Rightarrow> [])"

definition query_abort_effects :: "(effect \<Rightarrow> bool) \<Rightarrow> session \<Rightarrow> effect list" where
  "query_abort_effects throws s =
     (case queryAbortRef s of
        Some c \<Rightarrow> if throws (AbortCall c) then [] else [AbortCall c]
      | None \<Rightarrow> [])"

text \<open>A push-to-talk session in \<open>listening\<close> after an earlier turn, whose controller 9 is
  still in the cell.\<close>

definition ptt_idle_turn_session :: session where
  "ptt_idle_turn_session =
     initial_session
       \<lparr> mode := PushToTalk, modeRef := PushToTalk, state := Listening, stateRef := Listening,
         recognitionRef := Some 1, queryAbortRef := Some 9 \<rparr>"

text \<open>A push-to-talk session in \<open>listening\<close>.\<close>

definition ptt_listening_session :: session where
  "ptt_listening_session =
     initial_session
       \<lparr> mode := PushToTalk, modeRef := PushToTalk, state := Listening, stateRef := Listening,
         recognitionRef := Some 1 \<rparr>"

text \<open>The push-to-talk turn of \<open>thinking_session\<close> when its chat call fails at time 3000:
  the session that the \<open>catch\<close> and \<open>finally\<close> blocks leave.\<close>

definition failed_turn :: session where
  "failed_turn =
     processUserInput_catch no_throw \<lparr>now = 3000, uuid = 2, controller = 10\<rparr>
       (js ''Failed to fetch'') thinking_session"

text \<open>A push-to-talk session in \<open>speaking\<close> whose playback has just ended, and the session
  that the rest of \<open>processUserInput\<close> leaves at time 6000.\<close>

definition ptt_speaking_session :: session where
  "ptt_speaking_session =
     initial_session
       \<lparr> mode := PushToTalk, modeRef := PushToTalk, state := Speaking, stateRef := Speaking,
         isProcessing := True, processingRef := True, recognitionRef := Some 1,
         suspendRecognitionRef := True, queryAbortRef := Some 9,
         lastAssistantTextRef := balance_utterance,
         assistantUtterancesRef := [balance_utterance],
         ttsStartTimeRef := 4000, ttsEndTimeRef := 6000 \<rparr>"

definition spoken_turn :: session where
  "spoken_turn =
     processUserInput_after_tts \<lparr>now = 6000, uuid = 3, controller = 11\<rparr> PushToTalk
       ptt_speaking_session"






text \<open>
  The overlap ratio as the specification words it: the fraction of the candidate's words
  of length above 2 that are found in the word set of an assistant utterance, and the
  best such fraction over the history.
\<close>

definition spec_overlap_ratio :: "(jsstring \<Rightarrow> jsstring) \<Rightarrow> jsstring \<Rightarrow> jsstring \<Rightarrow> rat" where
  "spec_overlap_ratio toLowerCase utterance candidate =
     (let ws = long_words (trim (toLowerCase candidate));
          word_set = set (split_ws (trim (toLowerCase utterance)))
      in if ws = [] then 0
         else of_nat (length (filter (\<lambda>w. w \<in> word_set) ws)) / of_nat (length ws))"

definition spec_best_overlap :: "(jsstring \<Rightarrow> jsstring) \<Rightarrow> jsstring list \<Rightarrow> jsstring \<Rightarrow> rat" where
  "spec_best_overlap toLowerCase history candidate =
     fold max (map (\<lambda>u. spec_overlap_ratio toLowerCase u candidate) history) 0"

text \<open>
  The ratio of the amended statement: 0 for a candidate with fewer than two words of
  length above 2; otherwise the best fraction of these words found among the words of
  length above 2 of an utterance, over the last answer and the entries of the history
  that have at least two distinct such words.
\<close>

definition counted_utterance :: "(jsstring \<Rightarrow> jsstring) \<Rightarrow> jsstring \<Rightarrow> bool" where
  "counted_utterance toLowerCase utterance \<longleftrightarrow>
     2 \<le> length (remdups (long_words (trim (toLowerCase utterance))))"

definition amended_overlap_ratio ::
  "(jsstring \<Rightarrow> jsstring) \<Rightarrow> jsstring \<Rightarrow> jsstring list \<Rightarrow> jsstring \<Rightarrow> rat" where
  "amended_overlap_ratio toLowerCase lastAnswer history candidate =
     (let ws = long_words (trim (toLowerCase candidate)) in
      if length ws < 2 then 0
      else fold max
             (map (\<lambda>u. of_nat (length (filter (\<lambda>w. w \<in> set (long_words (trim (toLowerCase u)))) ws))
                        / of_nat (length ws))
                (filter (counted_utterance toLowerCase) (lastAnswer # history)))
             0)"

text \<open>The quotient \<open>matchCount / inputWords.length\<close> that the loop of
  \<open>assistantEchoOverlapRatio\<close> computes for one candidate.\<close>

definition candidate_ratio :: "jsstring list \<Rightarrow> jsstring \<Rightarrow> rat" where
  "candidate_ratio inputWords candidate =
     of_nat (match_count inputWords (long_words candidate)) / of_nat (length inputWords)"

text \<open>
  The three rules of \<open>stripAssistantEchoFromText\<close> for a lower-cased, trimmed text and
  one lower-cased, trimmed utterance: the text has more than 10 code units and occurs
  in the utterance; the two share a prefix of at least 18 code units; the first 48 code
  units of the utterance are at least 24 and occur in the text at a position up to 5,
  which \<open>anchor_position\<close> returns. \<open>no_strip_rule\<close> holds when none of them applies.
\<close>

definition contained_in :: "jsstring \<Rightarrow> jsstring \<Rightarrow> bool" where
  "contained_in normalized utterance \<longleftrightarrow> length normalized > 10 \<and> str_includes utterance normalized"

definition anchor_position :: "jsstring \<Rightarrow> jsstring \<Rightarrow> nat option" where
  "anchor_position normalized utterance =
     (if 24 \<le> length (take 48 utterance) then
        (case indexOf normalized (take 48 utterance) of
           Some idx \<Rightarrow> if idx \<le> 5 then Some idx else None
         | None \<Rightarrow> None)
      else None)"

definition no_strip_rule :: "jsstring \<Rightarrow> jsstring \<Rightarrow> bool" where
  "no_strip_rule normalized utterance \<longleftrightarrow>
     \<not> contained_in normalized utterance
     \<and> shared_prefix_len normalized utterance < 18
     \<and> anchor_position normalized utterance = None"

text \<open>\<open>text.slice(text.length - (lower.length - n)).trimStart()\<close>: the text without the
  code units that stand for the first \<open>n\<close> of its lower-cased form, and without the
  white space that follows them.\<close>

definition cut_front :: "jsstring \<Rightarrow> jsstring \<Rightarrow> nat \<Rightarrow> jsstring" where
  "cut_front said lower n =
     trimStart (slice_from said (int (length said) - (int (length lower) - int n)))"

text \<open>
  A push-to-talk session 400 ms after a failed chat call: the \<open>catch\<close> block opened the
  ignore window at 60000 and restarted the recognizer; the last playback ended at 5000,
  its answer is still in the history and the 12-second timer has emptied the cell of
  the last assistant text.
\<close>

definition after_error_session :: session where
  "after_error_session =
     ptt_listening_session
       \<lparr> assistantUtterancesRef := [balance_utterance], ttsStartTimeRef := 1000,
         ttsEndTimeRef := 5000, ignoreRecognitionUntilRef := 60900 \<rparr>"

definition final_rupees :: recognition_event where
  "final_rupees = \<lparr>ev_transcript = js ''rupees'', ev_isFinal = True\<rparr>"

definition final_balance_and_ticket :: recognition_event where
  "final_balance_and_ticket = \<lparr>ev_transcript = balance_and_ticket, ev_isFinal = True\<rparr>"

section \<open>Echo classifier: the two worked examples\<close>

lemma folds_ascii_ascii: "folds_ascii ascii_toLowerCase"
  by (simp add: folds_ascii_def)

text \<open>The classifier lower-cases only the transcript, the last answer and the entries of
  the history, so two lower-casings that agree on these give the same verdict.\<close>

lemma echo_candidates_cong:
  assumes "\<forall>u \<in> set (lastText # history). lc u = lc' u"
  shows "echo_candidates lc lastText history = echo_candidates lc' lastText history"
proof -
  have "map (\<lambda>s. trim (lc s)) (lastText # history) = map (\<lambda>s. trim (lc' s)) (lastText # history)"
    using assms by (intro map_cong) auto
  then show ?thesis
    unfolding echo_candidates_def by (rule arg_cong)
qed

lemma assistantEchoOverlapRatio_cong:
  assumes "lc said = lc' said" and "\<forall>u \<in> set (lastText # history). lc u = lc' u"
  shows "assistantEchoOverlapRatio lc lastText history said
       = assistantEchoOverlapRatio lc' lastText history said"
  unfolding assistantEchoOverlapRatio_def echo_candidates_cong [OF assms(2)] assms(1) ..

lemma stripAssistantEchoFromText_cong:
  assumes "lc said = lc' said" and "\<forall>u \<in> set (lastText # history). lc u = lc' u"
  shows "stripAssistantEchoFromText lc lastText history said
       = stripAssistantEchoFromText lc' lastText history said"
  unfolding stripAssistantEchoFromText_def echo_candidates_cong [OF assms(2)] assms(1) ..

lemma ascii_balance:
  "\<forall>c \<in> set balance_utterance. c < 128" "\<forall>c \<in> set balance_and_ticket. c < 128"
  unfolding balance_utterance_def balance_and_ticket_def by code_simp+

lemma folds_ascii_balance:
  assumes "folds_ascii lc"
  shows "lc [] = ascii_toLowerCase []"
    and "lc balance_utterance = ascii_toLowerCase balance_utterance"
    and "lc balance_and_ticket = ascii_toLowerCase balance_and_ticket"
  using assms ascii_balance by (simp_all add: folds_ascii_def)

lemma ratio_balance_same:
  "assistantEchoOverlapRatio ascii_toLowerCase [] [balance_utterance] balance_utterance = 1"
  "assistantEchoOverlapRatio ascii_toLowerCase balance_utterance [balance_utterance]
     balance_utterance = 1"
  unfolding balance_utterance_def by code_simp+

lemma ratio_balance_ticket:
  "assistantEchoOverlapRatio ascii_toLowerCase [] [balance_utterance] balance_and_ticket = 5 / 8"
  "assistantEchoOverlapRatio ascii_toLowerCase balance_utterance [balance_utterance]
     balance_and_ticket = 5 / 8"
  unfolding balance_utterance_def balance_and_ticket_def by code_simp+

lemma strip_balance_ticket:
  "stripAssistantEchoFromText ascii_toLowerCase [] [balance_utterance] balance_and_ticket
     = js ''and I need a ticket''"
  "stripAssistantEchoFromText ascii_toLowerCase balance_utterance [balance_utterance]
     balance_and_ticket = js ''and I need a ticket''"
  unfolding balance_utterance_def balance_and_ticket_def by code_simp+

text \<open>
  C2. The history holds exactly \<open>Your balance is five hundred rupees\<close> (and the cell for
  the last answer holds the same string or has been cleared), and a result arrives
  inside the tail-echo window; \<open>toLowerCase\<close> is any lower-casing that folds ASCII. A
  transcript equal to the utterance has overlap ratio at least 0.85 and is dropped; the
  transcript \<open>Your balance is five hundred rupees and I need a ticket\<close> has a ratio in
  [0.35, 0.85) and goes on as \<open>and I need a ticket\<close>, the rest after the shared prefix.
\<close>

theorem echo_worked_examples:
  assumes "folds_ascii lc"
    and "assistantUtterancesRef s = [balance_utterance]"
    and "lastAssistantTextRef s = [] \<or> lastAssistantTextRef s = balance_utterance"
    and "ignoreRecognitionUntilRef s \<noteq> 0"
    and "t < ignoreRecognitionUntilRef s"
  shows "assistantEchoOverlapRatio lc (lastAssistantTextRef s) (assistantUtterancesRef s)
           balance_utterance \<ge> 85 / 100
       \<and> echo_sanitize lc t s balance_utterance = None
       \<and> assistantEchoOverlapRatio lc (lastAssistantTextRef s) (assistantUtterancesRef s)
           balance_and_ticket \<ge> 35 / 100
       \<and> assistantEchoOverlapRatio lc (lastAssistantTextRef s) (assistantUtterancesRef s)
           balance_and_ticket < 85 / 100
       \<and> echo_sanitize lc t s balance_and_ticket = Some (js ''and I need a ticket'')"
proof -
  note agree = folds_ascii_balance [OF assms(1)]
  have same: "assistantEchoOverlapRatio lc (lastAssistantTextRef s) (assistantUtterancesRef s)
      balance_utterance = 1"
    using assms(2,3) agree ratio_balance_same
      assistantEchoOverlapRatio_cong [of lc balance_utterance ascii_toLowerCase]
    by auto
  have ticket: "assistantEchoOverlapRatio lc (lastAssistantTextRef s) (assistantUtterancesRef s)
      balance_and_ticket = 5 / 8"
    using assms(2,3) agree ratio_balance_ticket
      assistantEchoOverlapRatio_cong [of lc balance_and_ticket ascii_toLowerCase]
    by auto
  have cut: "stripAssistantEchoFromText lc (lastAssistantTextRef s) (assistantUtterancesRef s)
      balance_and_ticket = js ''and I need a ticket''"
    using assms(2,3) agree strip_balance_ticket
      stripAssistantEchoFromText_cong [of lc balance_and_ticket ascii_toLowerCase]
    by auto
  have nonempty: "js ''and I need a ticket'' \<noteq> []"
    by (simp add: js_def)
  show ?thesis
    using assms(4,5) nonempty by (simp add: echo_sanitize_def same ticket cut)
qed

theorem echo_worked_examples_witness:
  "folds_ascii ascii_toLowerCase
   \<and> assistantUtterancesRef after_balance_session = [balance_utterance]
   \<and> lastAssistantTextRef after_balance_session = balance_utterance
   \<and> ignoreRecognitionUntilRef after_balance_session \<noteq> 0
   \<and> 5400 < ignoreRecognitionUntilRef after_balance_session
   \<and> echo_sanitize ascii_toLowerCase 5400 after_balance_session balance_utterance = None
   \<and> echo_sanitize ascii_toLowerCase 5400 after_balance_session balance_and_ticket
       = Some (js ''and I need a ticket'')"
  using echo_worked_examples [of ascii_toLowerCase after_balance_session 5400] folds_ascii_ascii
  by (simp add: after_balance_session_def initial_session_def)

section \<open>addTranscript\<close>

lemma map_enumerate_other:
  "k \<ge> n + length xs \<Longrightarrow> map (\<lambda>(i, t). if i = k then f t else t) (enumerate n xs) = xs"
  by (induction xs arbitrary: n) auto

lemma map_enumerate_last:
  "xs \<noteq> [] \<Longrightarrow>
   map (\<lambda>(i, t). if i = length xs - 1 then f t else t) (enumerate 0 xs) = butlast xs @ [f (last xs)]"
proof (induction xs rule: rev_induct)
  case Nil
  then show ?case by simp
next
  case (snoc x xs)
  then show ?case by (simp add: enumerate_append_eq map_enumerate_other)
qed

lemma addTranscript_cases:
  "addTranscript i ts r txt fin prev =
     (if r = User \<and> \<not> fin \<and> prev \<noteq> [] \<and> \<not> isFinal (last prev) \<and> entry_role (last prev) = User
      then butlast prev @ [(last prev)\<lparr>entry_text := txt, isFinal := fin\<rparr>]
      else prev @ [\<lparr>entry_id = i, entry_role = r, entry_text = txt, timestamp = ts, isFinal = fin\<rparr>])"
  using map_enumerate_last [of prev "\<lambda>t. t\<lparr>entry_text := txt, isFinal := fin\<rparr>"]
  by (simp add: addTranscript_def)

lemma addTranscript_length: "length prev \<le> length (addTranscript i ts r txt fin prev)"
  by (simp add: addTranscript_cases)

lemma addTranscript_keeps_earlier:
  "n < length prev \<Longrightarrow> take n (addTranscript i ts r txt fin prev) = take n prev"
  by (cases prev rule: rev_cases) (auto simp add: addTranscript_cases)

lemma addTranscripts_keeps_earlier:
  "n < length prev \<Longrightarrow> take n (addTranscripts cs prev) = take n prev"
proof (induction cs arbitrary: prev)
  case Nil
  then show ?case by simp
next
  case (Cons c cs)
  let ?next = "addTranscript (call_id c) (call_ts c) (call_role c) (call_text c) (call_final c) prev"
  have "n < length ?next"
    using Cons.prems addTranscript_length [of prev] by (meson less_le_trans)
  then have "take n (addTranscripts cs ?next) = take n ?next"
    by (rule Cons.IH)
  then show ?case
    using Cons.prems by (simp add: addTranscript_keeps_earlier)
qed

text \<open>
  C10. \<open>addTranscript\<close> either appends a new entry or, and then the incoming result is an
  interim user result and the last entry of the list is a non-final user entry, rewrites
  the text of that last entry and leaves it non-final. A final user result is always
  appended as a new entry. After that, whatever \<open>addTranscript\<close> calls follow, the
  entries that were there before the final result stay as they were, so an interim
  entry among them stays in the list, marked non-final.
\<close>

theorem addTranscript_interim_and_final:
  "(addTranscript i ts r txt fin prev
      \<noteq> prev @ [\<lparr>entry_id = i, entry_role = r, entry_text = txt, timestamp = ts, isFinal = fin\<rparr>]
    \<longrightarrow> r = User \<and> \<not> fin \<and> prev \<noteq> [] \<and> \<not> isFinal (last prev) \<and> entry_role (last prev) = User
        \<and> addTranscript i ts r txt fin prev
            = butlast prev @ [(last prev)\<lparr>entry_text := txt, isFinal := False\<rparr>])
   \<and> addTranscript i ts User txt True prev
       = prev @ [\<lparr>entry_id = i, entry_role = User, entry_text = txt, timestamp = ts, isFinal = True\<rparr>]
   \<and> take (length prev) (addTranscripts cs (addTranscript i ts User txt True prev)) = prev"
proof (intro conjI impI)
  assume "addTranscript i ts r txt fin prev
      \<noteq> prev @ [\<lparr>entry_id = i, entry_role = r, entry_text = txt, timestamp = ts, isFinal = fin\<rparr>]"
  then show "r = User" "\<not> fin" "prev \<noteq> []" "\<not> isFinal (last prev)"
    "entry_role (last prev) = User"
    "addTranscript i ts r txt fin prev
       = butlast prev @ [(last prev)\<lparr>entry_text := txt, isFinal := False\<rparr>]"
    by (auto simp: addTranscript_cases split: if_splits)
next
  show fin: "addTranscript i ts User txt True prev
       = prev @ [\<lparr>entry_id = i, entry_role = User, entry_text = txt, timestamp = ts, isFinal = True\<rparr>]"
    by (simp add: addTranscript_cases)
  have "take (length prev) (addTranscripts cs (addTranscript i ts User txt True prev))
        = take (length prev) (addTranscript i ts User txt True prev)"
    by (rule addTranscripts_keeps_earlier) (simp add: fin)
  then show "take (length prev) (addTranscripts cs (addTranscript i ts User txt True prev)) = prev"
    by (simp add: fin)
qed

theorem addTranscript_interim_and_final_witness:
  "addTranscript 2 20 User (js ''what is my'') False [interim_entry]
     \<noteq> [interim_entry] @ [\<lparr>entry_id = 2, entry_role = User, entry_text = (js ''what is my''),
                            timestamp = 20, isFinal = False\<rparr>]
   \<and> addTranscript 2 20 User (js ''what is my'') False [interim_entry]
       = [interim_entry\<lparr>entry_text := (js ''what is my''), isFinal := False\<rparr>]
   \<and> addTranscript 3 30 User (js ''what is my balance'') True [interim_entry]
       = [interim_entry, \<lparr>entry_id = 3, entry_role = User, entry_text = (js ''what is my balance''),
                          timestamp = 30, isFinal = True\<rparr>]
   \<and> take 1 (addTranscripts later_calls
               (addTranscript 3 30 User (js ''what is my balance'') True [interim_entry]))
       = [interim_entry]
   \<and> \<not> isFinal interim_entry"
proof -
  note interim = addTranscript_interim_and_final
    [of 2 20 User "(js ''what is my'')" False "[interim_entry]" later_calls]
  note final = addTranscript_interim_and_final
    [of 3 30 User "(js ''what is my balance'')" True "[interim_entry]" later_calls]
  have differs: "addTranscript 2 20 User (js ''what is my'') False [interim_entry]
     \<noteq> [interim_entry] @ [\<lparr>entry_id = 2, entry_role = User, entry_text = (js ''what is my''),
                            timestamp = 20, isFinal = False\<rparr>]"
    by (simp add: addTranscript_def interim_entry_def)
  from interim differs have in_place: "addTranscript 2 20 User (js ''what is my'') False [interim_entry]
      = butlast [interim_entry] @ [(last [interim_entry])\<lparr>entry_text := (js ''what is my''), isFinal := False\<rparr>]"
    by blast
  from final have appended: "addTranscript 3 30 User (js ''what is my balance'') True [interim_entry]
      = [interim_entry] @ [\<lparr>entry_id = 3, entry_role = User, entry_text = (js ''what is my balance''),
                            timestamp = 30, isFinal = True\<rparr>]"
    by blast
  from final have kept: "take (length [interim_entry])
      (addTranscripts later_calls (addTranscript 3 30 User (js ''what is my balance'') True [interim_entry]))
      = [interim_entry]"
    by blast
  have "\<not> isFinal interim_entry"
    by (simp add: interim_entry_def)
  with differs in_place appended kept show ?thesis
    by simp
qed

section \<open>Teardown\<close>

lemma abort_query_nf:
  "abort_query throws s =
     s\<lparr>queryAbortRef := None,
       effects := effects s @
         (case queryAbortRef s of
            Some c \<Rightarrow> if throws (AbortCall c) then [] else [AbortCall c]
          | None \<Rightarrow> [])\<rparr>"
  by (simp add: abort_query_def catch_ignore_def call_def log_call_def split: option.splits)

lemma abort_tts_nf:
  "abort_tts throws s =
     s\<lparr>ttsAbortRef := None,
       effects := effects s @
         (case ttsAbortRef s of
            Some c \<Rightarrow> if throws (AbortCall c) then [] else [AbortCall c]
          | None \<Rightarrow> [])\<rparr>"
  by (simp add: abort_tts_def catch_ignore_def call_def log_call_def split: option.splits)

lemma stop_recognition_nf:
  "stop_recognition throws s =
     s\<lparr>recognitionRef := None,
       effects := effects s @
         (case recognitionRef s of
            Some r \<Rightarrow>
              RecognitionDetach r # (if throws (RecognitionStop r) then [] else [RecognitionStop r])
          | None \<Rightarrow> [])\<rparr>"
  by (simp add: stop_recognition_def catch_ignore_def call_def log_call_def split: option.splits)

lemma stop_audio_nf:
  "stop_audio throws s =
     s\<lparr>audioRef := None,
       effects := effects s @
         (case audioRef s of
            Some a \<Rightarrow>
              AudioDetach a #
              (if throws (AudioPause a) then []
               else AudioPause a # (if throws (AudioClearSrc a) then [] else [AudioClearSrc a]))
          | None \<Rightarrow> [])\<rparr>"
  by (simp add: stop_audio_def catch_ignore_def call_def log_call_def and_then_def
      split: option.splits)

lemma revoke_audio_url_nf:
  "revoke_audio_url throws s =
     s\<lparr>audioUrlRef :=
         (case audioUrlRef s of
            Some u \<Rightarrow> if throws (RevokeObjectURL u) then Some u else None
          | None \<Rightarrow> None),
       effects := effects s @
         (case audioUrlRef s of
            Some u \<Rightarrow> if throws (RevokeObjectURL u) then [] else [RevokeObjectURL u]
          | None \<Rightarrow> [])\<rparr>"
  by (simp add: revoke_audio_url_def catch_ignore_def call_def log_call_def and_then_def
      split: option.splits)

lemma stopBargeInMonitor_nf:
  "stopBargeInMonitor throws s =
     s\<lparr>vadIntervalRef :=
         (case vadIntervalRef s of
            Some h \<Rightarrow> if throws (ClearIntervalCall h) then Some h else None
          | None \<Rightarrow> None),
       vadConsecutiveRef := 0,
       effects := effects s @
         (case vadIntervalRef s of
            Some h \<Rightarrow> if throws (ClearIntervalCall h) then [] else [ClearIntervalCall h]
          | None \<Rightarrow> [])\<rparr>"
  by (simp add: stopBargeInMonitor_def catch_ignore_def call_def log_call_def and_then_def
      split: option.splits)

lemmas blocks_nf =
  abort_query_nf abort_tts_nf stop_recognition_nf stop_audio_nf revoke_audio_url_nf
  stopBargeInMonitor_nf

text \<open>\<open>stop\<close> as one update of the session.\<close>

lemma stop_nf:
  "stop throws s =
     s\<lparr> stoppedRef := True, audioCancelledRef := True, stateRef := Idle,
        queryAbortRef := None, ttsAbortRef := None, recognitionRef := None, audioRef := None,
        audioUrlRef :=
          (case audioUrlRef s of
             Some u \<Rightarrow> if throws (RevokeObjectURL u) then Some u else None
           | None \<Rightarrow> None),
        isSpeakingRef := False, suspendRecognitionRef := False,
        vadIntervalRef :=
          (case vadIntervalRef s of
             Some h \<Rightarrow> if throws (ClearIntervalCall h) then Some h else None
           | None \<Rightarrow> None),
        vadConsecutiveRef := 0, processingRef := False, lastTranscriptRef := [],
        lastAssistantTextRef := [], state := Idle, isProcessing := False,
        effects := effects s @ stop_effects throws s \<rparr>"
  by (simp add: stop_def blocks_nf Let_def stop_effects_def)

lemma stop_effects_stop: "stop_effects throws (stop throws s) = []"
  by (auto simp add: stop_nf stop_effects_def split: option.splits)

lemma stop_stop: "stop throws (stop throws s) = stop throws s"
proof -
  have url: "(case audioUrlRef (stop throws s) of
                Some u \<Rightarrow> if throws (RevokeObjectURL u) then Some u else None
              | None \<Rightarrow> None) = audioUrlRef (stop throws s)"
    by (auto simp add: stop_nf split: option.splits)
  have vad: "(case vadIntervalRef (stop throws s) of
                Some h \<Rightarrow> if throws (ClearIntervalCall h) then Some h else None
              | None \<Rightarrow> None) = vadIntervalRef (stop throws s)"
    by (auto simp add: stop_nf split: option.splits)
  show ?thesis
    apply (subst stop_nf)
    apply (simp only: stop_effects_stop url vad)
    apply (simp add: stop_nf)
    done
qed

lemma stop_aborts_query:
  "queryAbortRef s = Some c \<Longrightarrow> \<not> throws (AbortCall c) \<Longrightarrow> AbortCall c \<in> set (effects (stop throws s))"
  by (simp add: stop_nf stop_effects_def)

lemma stop_aborts_tts:
  "ttsAbortRef s = Some c \<Longrightarrow> \<not> throws (AbortCall c) \<Longrightarrow> AbortCall c \<in> set (effects (stop throws s))"
  by (simp add: stop_nf stop_effects_def)

lemma stop_effects_recognition:
  "recognitionRef s = Some r \<Longrightarrow>
   RecognitionDetach r \<in> set (stop_effects throws s)
   \<and> (\<not> throws (RecognitionStop r) \<longrightarrow> RecognitionStop r \<in> set (stop_effects throws s))"
  by (simp add: stop_effects_def)

lemma stop_effects_audio:
  "audioRef s = Some a \<Longrightarrow>
   AudioDetach a \<in> set (stop_effects throws s)
   \<and> (\<not> throws (AudioPause a) \<longrightarrow>
        AudioPause a \<in> set (stop_effects throws s)
        \<and> (\<not> throws (AudioClearSrc a) \<longrightarrow> AudioClearSrc a \<in> set (stop_effects throws s)))"
  by (simp add: stop_effects_def)

lemma stop_effects_timer:
  "vadIntervalRef s = Some h \<Longrightarrow> \<not> throws (ClearIntervalCall h)
   \<Longrightarrow> ClearIntervalCall h \<in> set (stop_effects throws s)"
  by (simp add: stop_effects_def)

lemma stop_effects_url:
  "audioUrlRef s = Some u \<Longrightarrow> \<not> throws (RevokeObjectURL u)
   \<Longrightarrow> RevokeObjectURL u \<in> set (stop_effects throws s)"
  by (simp add: stop_effects_def)

text \<open>
  C3. From any session (idle, listening, thinking or speaking, a chat call outstanding
  or not), and whichever of its platform calls throw provided \<open>clearInterval\<close> does not,
  \<open>stop\<close> leaves the state \<open>idle\<close>, the recognizer, the audio element, the monitor's timer
  and both abort controllers \<open>null\<close>, and the speaking, suspension and processing flags
  cleared. It has called \<open>abort\<close> on each controller that was outstanding, detached the
  handlers of the recognizer and called its \<open>stop()\<close>, detached the handlers of the
  audio element, paused it and cleared its source, revoked the object URL and cleared
  the timer (each call unless that very call, or for the audio source the pause before
  it, threw); these are all its platform calls, in this order. A second \<open>stop\<close> changes
  nothing: no cell and no further platform call.
\<close>

theorem stop_idempotent_teardown:
  assumes "\<And>h. \<not> throws (ClearIntervalCall h)"
  shows "state (stop throws s) = Idle
       \<and> stateRef (stop throws s) = Idle
       \<and> stoppedRef (stop throws s)
       \<and> recognitionRef (stop throws s) = None
       \<and> audioRef (stop throws s) = None
       \<and> vadIntervalRef (stop throws s) = None
       \<and> queryAbortRef (stop throws s) = None
       \<and> ttsAbortRef (stop throws s) = None
       \<and> (\<forall>c. queryAbortRef s = Some c \<and> \<not> throws (AbortCall c)
              \<longrightarrow> AbortCall c \<in> set (effects (stop throws s)))
       \<and> (\<forall>c. ttsAbortRef s = Some c \<and> \<not> throws (AbortCall c)
              \<longrightarrow> AbortCall c \<in> set (effects (stop throws s)))
       \<and> stop throws (stop throws s) = stop throws s
       \<and> audioCancelledRef (stop throws s)
       \<and> \<not> isSpeakingRef (stop throws s)
       \<and> \<not> suspendRecognitionRef (stop throws s)
       \<and> \<not> processingRef (stop throws s)
       \<and> \<not> isProcessing (stop throws s)
       \<and> vadConsecutiveRef (stop throws s) = 0
       \<and> lastTranscriptRef (stop throws s) = []
       \<and> lastAssistantTextRef (stop throws s) = []
       \<and> (\<forall>r. recognitionRef s = Some r
              \<longrightarrow> RecognitionDetach r \<in> set (effects (stop throws s))
                \<and> (\<not> throws (RecognitionStop r)
                     \<longrightarrow> RecognitionStop r \<in> set (effects (stop throws s))))
       \<and> (\<forall>a. audioRef s = Some a
              \<longrightarrow> AudioDetach a \<in> set (effects (stop throws s))
                \<and> (\<not> throws (AudioPause a)
                     \<longrightarrow> AudioPause a \<in> set (effects (stop throws s))
                       \<and> (\<not> throws (AudioClearSrc a)
                            \<longrightarrow> AudioClearSrc a \<in> set (effects (stop throws s)))))
       \<and> (\<forall>u. audioUrlRef s = Some u \<and> \<not> throws (RevokeObjectURL u)
              \<longrightarrow> RevokeObjectURL u \<in> set (effects (stop throws s))
                \<and> audioUrlRef (stop throws s) = None)
       \<and> (\<forall>h. vadIntervalRef s = Some h
              \<longrightarrow> ClearIntervalCall h \<in> set (effects (stop throws s)))
       \<and> effects (stop throws s) = effects s @ stop_effects throws s"
proof -
  have timer: "vadIntervalRef (stop throws s) = None"
    using assms by (simp add: stop_nf split: option.splits)
  have cells: "state (stop throws s) = Idle" "stateRef (stop throws s) = Idle"
    "stoppedRef (stop throws s)" "recognitionRef (stop throws s) = None"
    "audioRef (stop throws s) = None" "queryAbortRef (stop throws s) = None"
    "ttsAbortRef (stop throws s) = None"
    by (simp_all add: stop_nf)
  have flags: "audioCancelledRef (stop throws s)" "\<not> isSpeakingRef (stop throws s)"
    "\<not> suspendRecognitionRef (stop throws s)" "\<not> processingRef (stop throws s)"
    "\<not> isProcessing (stop throws s)" "vadConsecutiveRef (stop throws s) = 0"
    "lastTranscriptRef (stop throws s) = []" "lastAssistantTextRef (stop throws s) = []"
    by (simp_all add: stop_nf)
  have calls: "effects (stop throws s) = effects s @ stop_effects throws s"
    by (simp add: stop_nf)
  have url: "\<forall>u. audioUrlRef s = Some u \<and> \<not> throws (RevokeObjectURL u)
      \<longrightarrow> audioUrlRef (stop throws s) = None"
    by (simp add: stop_nf)
  have aborts: "\<forall>c. queryAbortRef s = Some c \<and> \<not> throws (AbortCall c)
              \<longrightarrow> AbortCall c \<in> set (effects (stop throws s))"
    "\<forall>c. ttsAbortRef s = Some c \<and> \<not> throws (AbortCall c)
              \<longrightarrow> AbortCall c \<in> set (effects (stop throws s))"
    using stop_aborts_query [of s _ throws] stop_aborts_tts [of s _ throws] by blast+
  have recognizer: "\<forall>r. recognitionRef s = Some r
              \<longrightarrow> RecognitionDetach r \<in> set (effects (stop throws s))
                \<and> (\<not> throws (RecognitionStop r)
                     \<longrightarrow> RecognitionStop r \<in> set (effects (stop throws s)))"
    using stop_effects_recognition [of s _ throws] by (simp add: calls)
  have audio: "\<forall>a. audioRef s = Some a
              \<longrightarrow> AudioDetach a \<in> set (effects (stop throws s))
                \<and> (\<not> throws (AudioPause a)
                     \<longrightarrow> AudioPause a \<in> set (effects (stop throws s))
                       \<and> (\<not> throws (AudioClearSrc a)
                            \<longrightarrow> AudioClearSrc a \<in> set (effects (stop throws s))))"
    using stop_effects_audio [of s _ throws] by (simp add: calls)
  have revoked: "\<forall>u. audioUrlRef s = Some u \<and> \<not> throws (RevokeObjectURL u)
              \<longrightarrow> RevokeObjectURL u \<in> set (effects (stop throws s))"
    using stop_effects_url [of s _ throws] by (simp add: calls)
  have cleared: "\<forall>h. vadIntervalRef s = Some h
              \<longrightarrow> ClearIntervalCall h \<in> set (effects (stop throws s))"
    using stop_effects_timer [of s _ throws] assms by (simp add: calls)
  show ?thesis
    using timer cells flags calls url aborts recognizer audio revoked cleared
      stop_stop [of throws s]
    by (simp only: simp_thms) blast
qed

theorem stop_idempotent_teardown_witness:
  "(\<forall>h. \<not> no_throw (ClearIntervalCall h))
   \<and> state thinking_session = Thinking
   \<and> queryAbortRef thinking_session = Some 9
   \<and> state (stop no_throw thinking_session) = Idle
   \<and> recognitionRef (stop no_throw thinking_session) = None
   \<and> audioRef (stop no_throw thinking_session) = None
   \<and> vadIntervalRef (stop no_throw thinking_session) = None
   \<and> queryAbortRef (stop no_throw thinking_session) = None
   \<and> ttsAbortRef (stop no_throw thinking_session) = None
   \<and> AbortCall 9 \<in> set (effects (stop no_throw thinking_session))
   \<and> stop no_throw (stop no_throw thinking_session) = stop no_throw thinking_session
   \<and> isSpeakingRef speaking_session \<and> processingRef speaking_session
   \<and> \<not> isSpeakingRef (stop no_throw speaking_session)
   \<and> \<not> processingRef (stop no_throw speaking_session)
   \<and> vadIntervalRef (stop no_throw speaking_session) = None
   \<and> effects (stop no_throw speaking_session)
       = [AbortCall 9, AbortCall 8, RecognitionDetach 1, RecognitionStop 1, AudioDetach 2,
          AudioPause 2, AudioClearSrc 2, RevokeObjectURL 3, ClearIntervalCall 7]"
proof -
  have h: "\<And>h. \<not> no_throw (ClearIntervalCall h)"
    by (simp add: no_throw_def)
  have start: "state thinking_session = Thinking" "queryAbortRef thinking_session = Some 9"
    by (simp_all add: thinking_session_def initial_session_def)
  have returns: "\<not> no_throw (AbortCall 9)"
    by (simp add: no_throw_def)
  have playing: "isSpeakingRef speaking_session" "processingRef speaking_session"
    "effects speaking_session = []"
    by (simp_all add: speaking_session_def initial_session_def)
  have calls: "stop_effects no_throw speaking_session
       = [AbortCall 9, AbortCall 8, RecognitionDetach 1, RecognitionStop 1, AudioDetach 2,
          AudioPause 2, AudioClearSrc 2, RevokeObjectURL 3, ClearIntervalCall 7]"
    by (simp add: stop_effects_def speaking_session_def initial_session_def no_throw_def)
  note thinking = stop_idempotent_teardown [of no_throw thinking_session, OF h]
  note speaking = stop_idempotent_teardown [of no_throw speaking_session, OF h]
  from thinking start have a: "state (stop no_throw thinking_session) = Idle"
    "recognitionRef (stop no_throw thinking_session) = None"
    "audioRef (stop no_throw thinking_session) = None"
    "vadIntervalRef (stop no_throw thinking_session) = None"
    "queryAbortRef (stop no_throw thinking_session) = None"
    "ttsAbortRef (stop no_throw thinking_session) = None"
    "AbortCall 9 \<in> set (effects (stop no_throw thinking_session))"
    "stop no_throw (stop no_throw thinking_session) = stop no_throw thinking_session"
    using returns by blast+
  from speaking have b: "\<not> isSpeakingRef (stop no_throw speaking_session)"
    "\<not> processingRef (stop no_throw speaking_session)"
    "vadIntervalRef (stop no_throw speaking_session) = None"
    "effects (stop no_throw speaking_session)
       = effects speaking_session @ stop_effects no_throw speaking_session"
    by blast+
  from b(4) playing(3) calls have c: "effects (stop no_throw speaking_session)
       = [AbortCall 9, AbortCall 8, RecognitionDetach 1, RecognitionStop 1, AudioDetach 2,
          AudioPause 2, AudioClearSrc 2, RevokeObjectURL 3, ClearIntervalCall 7]"
    by simp
  show ?thesis
    using h start playing(1,2) a b(1-3) c by blast
qed

lemma stop_effects_no_track_stop: "TrackStop m \<notin> set (stop_effects throws s)"
  by (auto simp add: stop_effects_def split: option.splits)

text \<open>
  C4. \<open>stop\<close> never touches the microphone stream or the audio context that the activity
  monitor acquired: both cells keep their value and no track is stopped, from every
  session and whatever throws. In the session \<open>speaking_session\<close> the stream 4 is still
  held after \<open>stop\<close>, and the platform calls of \<open>stop\<close> are exactly the two aborts, the
  recognizer's and the player's teardown, the revocation of the object URL and
  \<open>clearInterval\<close>. The unmount cleanup, from the same session, stops the stream's tracks
  and forgets the stream.
\<close>

theorem stop_keeps_microphone_stream:
  "micStreamRef (stop throws s) = micStreamRef s
   \<and> audioContextRef (stop throws s) = audioContextRef s
   \<and> TrackStop m \<notin> set (stop_effects throws s)
   \<and> micStreamRef (stop no_throw speaking_session) = Some 4
   \<and> effects (stop no_throw speaking_session)
       = [AbortCall 9, AbortCall 8, RecognitionDetach 1, RecognitionStop 1, AudioDetach 2,
          AudioPause 2, AudioClearSrc 2, RevokeObjectURL 3, ClearIntervalCall 7]
   \<and> micStreamRef (unmount_cleanup no_throw speaking_session) = None
   \<and> TrackStop 4 \<in> set (effects (unmount_cleanup no_throw speaking_session))"
proof -
  have "micStreamRef (stop throws s) = micStreamRef s"
    "audioContextRef (stop throws s) = audioContextRef s"
    by (simp_all add: stop_nf)
  moreover have "micStreamRef (stop no_throw speaking_session) = Some 4"
    by (simp add: stop_nf speaking_session_def initial_session_def)
  moreover have "effects (stop no_throw speaking_session)
       = [AbortCall 9, AbortCall 8, RecognitionDetach 1, RecognitionStop 1, AudioDetach 2,
          AudioPause 2, AudioClearSrc 2, RevokeObjectURL 3, ClearIntervalCall 7]"
    by (simp add: stop_nf stop_effects_def speaking_session_def initial_session_def no_throw_def)
  moreover have "micStreamRef (unmount_cleanup no_throw speaking_session) = None"
    "TrackStop 4 \<in> set (effects (unmount_cleanup no_throw speaking_session))"
    by (simp_all add: unmount_cleanup_def clear_vad_interval_def close_audio_context_def
        release_mic_stream_def unmount_recognition_def unmount_audio_def blocks_nf
        catch_ignore_def call_def and_then_def log_call_def no_throw_def
        speaking_session_def initial_session_def)
  ultimately show ?thesis
    using stop_effects_no_track_stop [of m throws s] by blast
qed

section \<open>Assistant utterance history\<close>

lemma turn_asked_eval:
  "turn_asked =
     listening_session
       \<lparr>processingRef := True, isProcessing := True, queryAbortRef := Some 9,
         effects := [ChatRequest (js ''what is my balance'') 9]\<rparr>"
  unfolding turn_asked_def listening_session_def initial_session_def by code_simp

text \<open>
  C9. One whole turn: the answer is put in front of the history and into the cell of the
  last assistant text, and the end of the turn registers the 12000 ms timer. When the
  callback of that timer has run, the cell of the last assistant text is empty and the
  history still holds the answer: no entry of the history has been cleared. The
  classifiers read the cell and the history together, and their candidate list holds
  the answer before the callback (twice) and after it (once). In every session the
  callback empties the cell and leaves the history as it is.
\<close>

theorem grace_timer_leaves_history:
  "effects turn_finished
     = [ChatRequest (js ''what is my balance'') 9, SetTimeoutCall ClearLastAssistantText 12000]
   \<and> lastAssistantTextRef turn_finished = balance_utterance
   \<and> assistantUtterancesRef turn_finished = [balance_utterance]
   \<and> lastAssistantTextRef turn_timer_fired = []
   \<and> assistantUtterancesRef turn_timer_fired = [balance_utterance]
   \<and> echo_candidates ascii_toLowerCase (lastAssistantTextRef turn_finished)
         (assistantUtterancesRef turn_finished)
       = [js ''your balance is five hundred rupees'', js ''your balance is five hundred rupees'']
   \<and> echo_candidates ascii_toLowerCase (lastAssistantTextRef turn_timer_fired)
         (assistantUtterancesRef turn_timer_fired)
       = [js ''your balance is five hundred rupees'']
   \<and> lastAssistantTextRef (timeout_clear_last_assistant_text s) = []
   \<and> assistantUtterancesRef (timeout_clear_last_assistant_text s) = assistantUtterancesRef s"
proof -
  have callback: "lastAssistantTextRef (timeout_clear_last_assistant_text s) = []"
    "assistantUtterancesRef (timeout_clear_last_assistant_text s) = assistantUtterancesRef s"
    by (simp_all add: timeout_clear_last_assistant_text_def)
  have cells: "effects turn_finished
     = [ChatRequest (js ''what is my balance'') 9, SetTimeoutCall ClearLastAssistantText 12000]"
    "lastAssistantTextRef turn_finished = balance_utterance"
    "assistantUtterancesRef turn_finished = [balance_utterance]"
    "lastAssistantTextRef turn_timer_fired = []"
    "assistantUtterancesRef turn_timer_fired = [balance_utterance]"
    by (simp_all add: turn_timer_fired_def turn_finished_def turn_answered_def turn_asked_eval
        timeout_clear_last_assistant_text_def processUserInput_after_tts_def
        processUserInput_resolved_def processUserInput_finally_def log_call_def
        listening_session_def initial_session_def balance_utterance_def js_def Let_def)
  have candidates:
    "echo_candidates ascii_toLowerCase balance_utterance [balance_utterance]
       = [js ''your balance is five hundred rupees'', js ''your balance is five hundred rupees'']"
    "echo_candidates ascii_toLowerCase [] [balance_utterance]
       = [js ''your balance is five hundred rupees'']"
    unfolding balance_utterance_def by code_simp+
  show ?thesis
    by (simp only: cells candidates callback simp_thms)
qed

section \<open>Turn processor\<close>

lemma processUserInput_nf:
  assumes "\<not> processingRef s" "trim txt \<noteq> []" "\<not> stoppedRef s" "stateRef s \<noteq> Idle"
  shows "processUserInput throws e txt s =
     s\<lparr> processingRef := True, isProcessing := True,
        suspendRecognitionRef := (suspendRecognitionRef s \<or> (modeRef s = PushToTalk \<and> recognitionRef s \<noteq> None)),
        state := (if modeRef s \<noteq> Continuous then Thinking else state s),
        queryAbortRef := Some (controller e),
        effects := effects s @ recognition_stop_effects throws s @ query_abort_effects throws s
                   @ [ChatRequest txt (controller e)] \<rparr>"
  using assms
  by (auto simp add: processUserInput_def log_call_def catch_ignore_def call_def Let_def
      recognition_stop_effects_def query_abort_effects_def
      split: option.splits)

lemma processUserInput_busy: "processingRef s \<Longrightarrow> processUserInput throws e txt s = s"
  by (simp add: processUserInput_def)

text \<open>
  C5, as stated, fails: while the first turn is outstanding (\<open>processingRef\<close> set,
  controller 9 in the cell) a second call of \<open>processUserInput\<close> makes no platform call
  at all, so it neither aborts controller 9 nor issues a request, and the answer of the
  first turn is then appended to the transcript list.
\<close>

theorem second_turn_not_cancelling_counterexample:
  "processingRef thinking_session
   \<and> queryAbortRef thinking_session = Some 9
   \<and> effects (processUserInput no_throw \<lparr>now = 2000, uuid = 2, controller = 10\<rparr>
                (js ''and my data balance'') thinking_session) = []
   \<and> queryAbortRef (processUserInput no_throw \<lparr>now = 2000, uuid = 2, controller = 10\<rparr>
                (js ''and my data balance'') thinking_session) = Some 9
   \<and> transcripts (processUserInput no_throw \<lparr>now = 2000, uuid = 2, controller = 10\<rparr>
                (js ''and my data balance'') thinking_session) = []
   \<and> transcripts
       (fst (processUserInput_resolved \<lparr>now = 3000, uuid = 3, controller = 11\<rparr> balance_utterance
               (processUserInput no_throw \<lparr>now = 2000, uuid = 2, controller = 10\<rparr>
                  (js ''and my data balance'') thinking_session)))
       = [\<lparr>entry_id = 3, entry_role = Assistant, entry_text = balance_utterance,
           timestamp = 3000, isFinal = True\<rparr>]"
  by code_simp

lemma resolved_transcripts_dead:
  "stoppedRef s \<or> stateRef s = Idle
   \<Longrightarrow> transcripts (fst (processUserInput_resolved e answer s)) = transcripts s"
  by (auto simp add: processUserInput_resolved_def processUserInput_finally_def)

lemma resolved_transcripts_live:
  "\<not> stoppedRef s \<Longrightarrow> stateRef s \<noteq> Idle \<Longrightarrow> answer \<noteq> []
   \<Longrightarrow> transcripts (fst (processUserInput_resolved e answer s))
       = transcripts s @ [\<lparr>entry_id = uuid e, entry_role = Assistant, entry_text = answer,
                           timestamp = now e, isFinal = True\<rparr>]"
  by (simp add: processUserInput_resolved_def Let_def addTranscript_def)

text \<open>
  C5, amended. A call of \<open>processUserInput\<close> while a turn is in flight changes nothing.
  A call that starts a turn sets \<open>processingRef\<close>, stores the new controller, and its
  platform calls are, in this order: the stop of the recognizer (push-to-talk), the
  abort of the controller left in the cell, the chat request. The answer of a turn is
  appended to the transcript list in a live session, and leaves the list alone once
  the session is stopped or idle, in particular after \<open>stop\<close>.
\<close>

theorem single_turn_in_flight:
  "(processingRef s \<longrightarrow> processUserInput throws e said s = s)
   \<and> (\<not> processingRef s \<and> trim said \<noteq> [] \<and> \<not> stoppedRef s \<and> stateRef s \<noteq> Idle
      \<longrightarrow> processingRef (processUserInput throws e said s)
        \<and> queryAbortRef (processUserInput throws e said s) = Some (controller e)
        \<and> effects (processUserInput throws e said s)
            = effects s @ recognition_stop_effects throws s @ query_abort_effects throws s
              @ [ChatRequest said (controller e)]
        \<and> (\<forall>c. queryAbortRef s = Some c \<and> \<not> throws (AbortCall c)
               \<longrightarrow> query_abort_effects throws s = [AbortCall c]))
   \<and> (\<not> stoppedRef s \<and> stateRef s \<noteq> Idle \<and> answer \<noteq> []
      \<longrightarrow> transcripts (fst (processUserInput_resolved e answer s))
            = transcripts s @ [\<lparr>entry_id = uuid e, entry_role = Assistant, entry_text = answer,
                                timestamp = now e, isFinal = True\<rparr>])
   \<and> (stoppedRef s \<or> stateRef s = Idle
      \<longrightarrow> transcripts (fst (processUserInput_resolved e answer s)) = transcripts s)
   \<and> transcripts (fst (processUserInput_resolved e answer (stop throws s))) = transcripts s"
proof -
  have "transcripts (fst (processUserInput_resolved e answer (stop throws s)))
          = transcripts (stop throws s)"
    by (rule resolved_transcripts_dead) (simp add: stop_nf)
  then have after_stop: "transcripts (fst (processUserInput_resolved e answer (stop throws s)))
          = transcripts s"
    by (simp add: stop_nf)
  show ?thesis
    using after_stop resolved_transcripts_dead [of s e answer] resolved_transcripts_live [of s answer e]
      processUserInput_busy [of s throws e "said"] processUserInput_nf [of s "said" throws e]
    by (auto simp add: query_abort_effects_def)
qed

theorem single_turn_in_flight_witness:
  "processingRef thinking_session
   \<and> processUserInput no_throw \<lparr>now = 2000, uuid = 2, controller = 10\<rparr> (js ''and my data balance'')
        thinking_session = thinking_session
   \<and> \<not> processingRef ptt_idle_turn_session \<and> trim (js ''what is my balance'') \<noteq> []
   \<and> \<not> stoppedRef ptt_idle_turn_session \<and> stateRef ptt_idle_turn_session \<noteq> Idle
   \<and> queryAbortRef ptt_idle_turn_session = Some 9 \<and> \<not> no_throw (AbortCall 9)
   \<and> effects (processUserInput no_throw \<lparr>now = 2000, uuid = 2, controller = 10\<rparr>
                (js ''what is my balance'') ptt_idle_turn_session)
       = [RecognitionStop 1, AbortCall 9, ChatRequest (js ''what is my balance'') 10]
   \<and> stoppedRef (stop no_throw thinking_session)
   \<and> transcripts (fst (processUserInput_resolved \<lparr>now = 3000, uuid = 3, controller = 11\<rparr>
                          balance_utterance (stop no_throw thinking_session)))
       = transcripts (stop no_throw thinking_session)"
proof -
  have busy: "processingRef thinking_session"
    by (simp add: thinking_session_def initial_session_def)
  have said: "trim (js ''what is my balance'') \<noteq> []"
    by code_simp
  have free: "\<not> processingRef ptt_idle_turn_session" "trim (js ''what is my balance'') \<noteq> []"
    "\<not> stoppedRef ptt_idle_turn_session" "stateRef ptt_idle_turn_session \<noteq> Idle"
    "queryAbortRef ptt_idle_turn_session = Some 9" "\<not> no_throw (AbortCall 9)"
    "effects ptt_idle_turn_session = []"
    "recognition_stop_effects no_throw ptt_idle_turn_session = [RecognitionStop 1]"
    using said
    by (simp_all add: ptt_idle_turn_session_def initial_session_def no_throw_def
        recognition_stop_effects_def)
  have dead: "stoppedRef (stop no_throw thinking_session)"
    by (simp add: stop_nf)
  note a = single_turn_in_flight
      [where s = thinking_session and throws = no_throw
         and e = "\<lparr>now = 2000, uuid = 2, controller = 10\<rparr>" and said = "(js ''and my data balance'')"]
  note b = single_turn_in_flight
      [where s = ptt_idle_turn_session and throws = no_throw
         and e = "\<lparr>now = 2000, uuid = 2, controller = 10\<rparr>" and said = "(js ''what is my balance'')"]
  note c = single_turn_in_flight
      [where s = "stop no_throw thinking_session" and answer = balance_utterance
         and e = "\<lparr>now = 3000, uuid = 3, controller = 11\<rparr>"]
  from a busy have a': "processUserInput no_throw \<lparr>now = 2000, uuid = 2, controller = 10\<rparr>
       (js ''and my data balance'') thinking_session = thinking_session"
    by blast
  from b free have b': "effects (processUserInput no_throw \<lparr>now = 2000, uuid = 2, controller = 10\<rparr>
                (js ''what is my balance'') ptt_idle_turn_session)
       = [RecognitionStop 1, AbortCall 9, ChatRequest (js ''what is my balance'') 10]"
    by simp
  from c dead have c': "transcripts (fst (processUserInput_resolved \<lparr>now = 3000, uuid = 3, controller = 11\<rparr>
                          balance_utterance (stop no_throw thinking_session)))
       = transcripts (stop no_throw thinking_session)"
    by blast
  show ?thesis
    using busy free dead a' b' c' by simp
qed

text \<open>
  C8. The \<open>catch\<close> block of the chat call. When \<open>stop\<close> has been called (which is what
  aborts the call), the failure is absorbed: only the \<open>finally\<close> block runs, no toast
  is shown, and after \<open>stop\<close> the session stays exactly as \<open>stop\<close> left it, in \<open>idle\<close>.
  Otherwise, in a session that is not idle, the error is shown as a toast, the state
  becomes \<open>listening\<close> and the processing and suspension flags are cleared.
\<close>

theorem chat_failure_paths:
  "(stoppedRef s
      \<longrightarrow> processUserInput_catch throws e msg s = processUserInput_finally s
        \<and> effects (processUserInput_catch throws e msg s) = effects s
        \<and> state (processUserInput_catch throws e msg s) = state s)
   \<and> processUserInput_catch throws e msg (stop throws s) = stop throws s
   \<and> state (processUserInput_catch throws e msg (stop throws s)) = Idle
   \<and> (\<not> stoppedRef s \<and> stateRef s \<noteq> Idle
      \<longrightarrow> state (processUserInput_catch throws e msg s) = Listening
        \<and> ToastError (js ''Request failed'') msg \<in> set (effects (processUserInput_catch throws e msg s))
        \<and> \<not> processingRef (processUserInput_catch throws e msg s)
        \<and> \<not> isProcessing (processUserInput_catch throws e msg s)
        \<and> \<not> suspendRecognitionRef (processUserInput_catch throws e msg s))"
proof -
  have silent: "stoppedRef s
      \<longrightarrow> processUserInput_catch throws e msg s = processUserInput_finally s
        \<and> effects (processUserInput_catch throws e msg s) = effects s
        \<and> state (processUserInput_catch throws e msg s) = state s"
    by (simp add: processUserInput_catch_def processUserInput_finally_def)
  have "processUserInput_catch throws e msg (stop throws s) = processUserInput_finally (stop throws s)"
    by (simp add: processUserInput_catch_def stop_nf)
  also have "\<dots> = stop throws s"
    by (simp add: processUserInput_finally_def stop_nf)
  finally have absorbed: "processUserInput_catch throws e msg (stop throws s) = stop throws s" .
  have idle: "state (stop throws s) = Idle"
    by (simp add: stop_nf)
  have surfaced: "\<not> stoppedRef s \<and> stateRef s \<noteq> Idle
      \<longrightarrow> state (processUserInput_catch throws e msg s) = Listening
        \<and> ToastError (js ''Request failed'') msg \<in> set (effects (processUserInput_catch throws e msg s))
        \<and> \<not> processingRef (processUserInput_catch throws e msg s)
        \<and> \<not> isProcessing (processUserInput_catch throws e msg s)
        \<and> \<not> suspendRecognitionRef (processUserInput_catch throws e msg s)"
    by (auto simp add: processUserInput_catch_def processUserInput_finally_def log_call_def
        catch_ignore_def call_def Let_def split: option.splits)
  show ?thesis
    using silent absorbed idle surfaced by (simp only: simp_thms)
qed

theorem chat_failure_paths_witness:
  "\<not> stoppedRef thinking_session \<and> stateRef thinking_session \<noteq> Idle
   \<and> state thinking_session = Thinking
   \<and> state (processUserInput_catch no_throw \<lparr>now = 3000, uuid = 2, controller = 10\<rparr>
               (js ''Failed to fetch'') thinking_session) = Listening
   \<and> ToastError (js ''Request failed'') (js ''Failed to fetch'')
        \<in> set (effects (processUserInput_catch no_throw \<lparr>now = 3000, uuid = 2, controller = 10\<rparr>
                           (js ''Failed to fetch'') thinking_session))
   \<and> stoppedRef (stop no_throw thinking_session)
   \<and> processUserInput_catch no_throw \<lparr>now = 3000, uuid = 2, controller = 10\<rparr>
        (js ''Failed to fetch'') (stop no_throw thinking_session) = stop no_throw thinking_session"
proof -
  have live: "\<not> stoppedRef thinking_session" "stateRef thinking_session \<noteq> Idle"
    "state thinking_session = Thinking"
    by (simp_all add: thinking_session_def initial_session_def)
  have dead: "stoppedRef (stop no_throw thinking_session)"
    by (simp add: stop_nf)
  show ?thesis
    using live dead
      chat_failure_paths
        [where s = thinking_session and throws = no_throw
           and e = "\<lparr>now = 3000, uuid = 2, controller = 10\<rparr>" and msg = "(js ''Failed to fetch'')"]
    by simp
qed

section \<open>Push-to-talk: the restart after a chat error\<close>

text \<open>
  C6. In push-to-talk mode a chat call fails. The \<open>catch\<close> block shows the toast and
  calls \<open>start()\<close> on the recognizer at once: no timer is registered, so this restart has
  no delay. The render that follows \<open>setState('listening')\<close> then runs the effect that
  calls \<open>stop()\<close> on the recognizer, and in push-to-talk mode \<open>onend\<close> changes nothing, so
  the recognizer stays stopped. After synthesis, in the same mode, the controller
  registers the restart with a delay of 200 ms; the effect's \<open>stop()\<close> comes first and
  the timer's \<open>start()\<close> last.
\<close>

theorem catch_restart_has_no_delay:
  "modeRef thinking_session = PushToTalk
   \<and> effects failed_turn
       = [ToastError (js ''Request failed'') (js ''Failed to fetch''), RecognitionStart 1]
   \<and> render_effects no_throw thinking_session failed_turn
       = Normal (failed_turn
                  \<lparr>stateRef := Listening,
                    effects := [ToastError (js ''Request failed'') (js ''Failed to fetch''),
                                RecognitionStart 1, RecognitionStop 1]\<rparr>)
   \<and> onend no_throw 1
        (failed_turn
          \<lparr>stateRef := Listening,
            effects := [ToastError (js ''Request failed'') (js ''Failed to fetch''),
                        RecognitionStart 1, RecognitionStop 1]\<rparr>)
       = failed_turn
          \<lparr>stateRef := Listening,
            effects := [ToastError (js ''Request failed'') (js ''Failed to fetch''),
                        RecognitionStart 1, RecognitionStop 1]\<rparr>
   \<and> effects spoken_turn
       = [SetTimeoutCall ClearLastAssistantText 12000, SetTimeoutCall StartRecognition 200]
   \<and> render_effects no_throw ptt_speaking_session spoken_turn
       = Normal (spoken_turn
                  \<lparr>stateRef := Listening,
                    effects := [SetTimeoutCall ClearLastAssistantText 12000,
                                SetTimeoutCall StartRecognition 200, RecognitionStop 1]\<rparr>)
   \<and> effects (timeout_start_recognition no_throw
                (spoken_turn
                  \<lparr>stateRef := Listening,
                    effects := [SetTimeoutCall ClearLastAssistantText 12000,
                                SetTimeoutCall StartRecognition 200, RecognitionStop 1]\<rparr>))
       = [SetTimeoutCall ClearLastAssistantText 12000, SetTimeoutCall StartRecognition 200,
          RecognitionStop 1, RecognitionStart 1]"
  by code_simp

text \<open>The failed turn does change the rendered state, from \<open>thinking\<close> to \<open>listening\<close>,
  with the recognizer still in its cell: the effect after the render runs and stops the
  recognizer that the \<open>catch\<close> block started.\<close>

theorem catch_restart_has_no_delay_witness:
  "state thinking_session = Thinking \<and> state failed_turn = Listening
   \<and> mode failed_turn = mode thinking_session
   \<and> recognitionRef failed_turn = Some 1
   \<and> effects failed_turn
       = [ToastError (js ''Request failed'') (js ''Failed to fetch''), RecognitionStart 1]
   \<and> (\<exists>s'. render_effects no_throw thinking_session failed_turn = Normal s'
          \<and> effects s' = effects failed_turn @ [RecognitionStop 1])"
proof -
  have cells: "state thinking_session = Thinking" "state failed_turn = Listening"
    "mode failed_turn = mode thinking_session" "recognitionRef failed_turn = Some 1"
    by code_simp+
  note run = catch_restart_has_no_delay
  from run have logged: "effects failed_turn
       = [ToastError (js ''Request failed'') (js ''Failed to fetch''), RecognitionStart 1]"
    by (rule conjunct2 [THEN conjunct1])
  from run have "render_effects no_throw thinking_session failed_turn
       = Normal (failed_turn
                  \<lparr>stateRef := Listening,
                    effects := [ToastError (js ''Request failed'') (js ''Failed to fetch''),
                                RecognitionStart 1, RecognitionStop 1]\<rparr>)"
    by (rule conjunct2 [THEN conjunct2, THEN conjunct1])
  with logged have "\<exists>s'. render_effects no_throw thinking_session failed_turn = Normal s'
          \<and> effects s' = effects failed_turn @ [RecognitionStop 1]"
    by simp
  with cells logged show ?thesis
    by (intro conjI)
qed

section \<open>Activity monitor\<close>



















section \<open>Echo classifier inside the ignore window\<close>

text \<open>
  C1, as stated, fails in four ways; each result below arrives inside the ignore window,
  and the strings are ASCII, which the platform's \<open>toLowerCase\<close> folds as
  \<open>ascii_toLowerCase\<close> does. The history holds \<open>Your balance is five hundred rupees\<close>.
  The result \<open>rupees\<close> has ratio 1 in the words of the claim, for its one word is a word
  of the utterance; the code's ratio is 0 (fewer than two words), the text is let
  through, and the handler appends it to the transcript and sends it to the backend.
  The result \<open>Your ticket balance is open\<close> has ratio 1/2 and shares the prefix \<open>your \<close>
  with the utterance, which is not stripped: the text goes on unchanged. The result
  \<open>lance is five hundred\<close> has ratio 2/3, shares no prefix with the utterance and holds
  no anchor of it, so nothing is there to strip and the remainder is not empty; the
  code discards it, because the text occurs in the utterance. With the history
  \<open>Okay okay\<close>, the result \<open>okay okay\<close> has ratio 1 in the words of the claim; the code
  skips an utterance with fewer than two distinct words, its ratio is 0, and the text is
  let through.
\<close>

theorem echo_claim_counterexample:
  "assistantUtterancesRef after_error_session = [balance_utterance]
   \<and> ignoreRecognitionUntilRef after_error_session \<noteq> 0
   \<and> 60400 < ignoreRecognitionUntilRef after_error_session
   \<and> spec_best_overlap ascii_toLowerCase (assistantUtterancesRef after_error_session)
        (js ''rupees'') = 1
   \<and> echo_sanitize ascii_toLowerCase 60400 after_error_session (js ''rupees'')
       = Some (js ''rupees'')
   \<and> (case onresult no_throw ascii_toLowerCase \<lparr>now = 60400, uuid = 4, controller = 10\<rparr> 1
              final_rupees after_error_session of
         Normal s' \<Rightarrow>
           transcripts s'
             = [\<lparr>entry_id = 4, entry_role = User, entry_text = js ''rupees'', timestamp = 60400,
                 isFinal = True\<rparr>]
           \<and> effects s' = [RecognitionStop 1, RecognitionStop 1, ChatRequest (js ''rupees'') 10]
       | Threw s' \<Rightarrow> False)
   \<and> spec_best_overlap ascii_toLowerCase (assistantUtterancesRef after_error_session)
        (js ''Your ticket balance is open'') = 1 / 2
   \<and> shared_prefix_len (trim (ascii_toLowerCase (js ''Your ticket balance is open'')))
        (trim (ascii_toLowerCase balance_utterance)) = 5
   \<and> echo_sanitize ascii_toLowerCase 60400 after_error_session (js ''Your ticket balance is open'')
       = Some (js ''Your ticket balance is open'')
   \<and> spec_best_overlap ascii_toLowerCase (assistantUtterancesRef after_error_session)
        (js ''lance is five hundred'') = 2 / 3
   \<and> shared_prefix_len (trim (ascii_toLowerCase (js ''lance is five hundred'')))
        (trim (ascii_toLowerCase balance_utterance)) = 0
   \<and> indexOf (trim (ascii_toLowerCase (js ''lance is five hundred'')))
        (take 48 (trim (ascii_toLowerCase balance_utterance))) = None
   \<and> echo_sanitize ascii_toLowerCase 60400 after_error_session (js ''lance is five hundred'')
       = None
   \<and> spec_best_overlap ascii_toLowerCase [js ''Okay okay''] (js ''okay okay'') = 1
   \<and> echo_sanitize ascii_toLowerCase 60400
        (after_error_session\<lparr>assistantUtterancesRef := [js ''Okay okay'']\<rparr>) (js ''okay okay'')
       = Some (js ''okay okay'')"
  by code_simp

lemma overlap_loop_Cons:
  "overlap_loop iw b (c # cs) =
     (if length (remdups (long_words c)) < 2 then overlap_loop iw b cs
      else if max b (candidate_ratio iw c) \<ge> 9 / 10 then max b (candidate_ratio iw c)
      else overlap_loop iw (max b (candidate_ratio iw c)) cs)"
proof -
  have "(if candidate_ratio iw c > b then candidate_ratio iw c else b) = max b (candidate_ratio iw c)"
    by (simp add: max_def)
  then show ?thesis
    by (simp only: overlap_loop.simps Let_def candidate_ratio_def)
qed

lemma overlap_loop_ge:
  "q \<le> 9 / 10 \<Longrightarrow>
   (overlap_loop iw b cs \<ge> q) \<longleftrightarrow>
   (b \<ge> q \<or> (\<exists>c \<in> set cs. 2 \<le> length (remdups (long_words c)) \<and> candidate_ratio iw c \<ge> q))"
proof (induction cs arbitrary: b)
  case Nil
  then show ?case by simp
next
  case (Cons c cs)
  let ?best = "max b (candidate_ratio iw c)"
  show ?case
  proof (cases "length (remdups (long_words c)) < 2")
    case True
    then have "overlap_loop iw b (c # cs) = overlap_loop iw b cs"
      by (simp only: overlap_loop_Cons if_True)
    with True Cons.IH [OF Cons.prems, of b] show ?thesis
      by auto
  next
    case False
    show ?thesis
    proof (cases "?best \<ge> 9 / 10")
      case True
      with False have "overlap_loop iw b (c # cs) = ?best"
        by (simp only: overlap_loop_Cons if_True if_False)
      moreover from True Cons.prems have "?best \<ge> q"
        by linarith
      ultimately show ?thesis
        using False by (auto simp add: le_max_iff_disj)
    next
      case nine: False
      with False have "overlap_loop iw b (c # cs) = overlap_loop iw ?best cs"
        by (simp only: overlap_loop_Cons if_False)
      with Cons.IH [OF Cons.prems, of ?best] False show ?thesis
        by (auto simp add: le_max_iff_disj)
    qed
  qed
qed

lemma long_words_empty: "long_words [] = []"
  by (simp add: long_words_def)

lemma assistantEchoOverlapRatio_ge:
  assumes "0 < q" "q \<le> 9 / 10"
  shows "assistantEchoOverlapRatio lc lastText history said \<ge> q \<longleftrightarrow>
     2 \<le> length (long_words (trim (lc said)))
     \<and> (\<exists>c \<in> set (echo_candidates lc lastText history).
            2 \<le> length (remdups (long_words c))
            \<and> candidate_ratio (long_words (trim (lc said))) c \<ge> q)"
proof (cases "trim (lc said) = []")
  case True
  with assms show ?thesis
    by (simp add: assistantEchoOverlapRatio_def long_words_empty)
next
  case False
  show ?thesis
  proof (cases "length (long_words (trim (lc said))) < 2")
    case True
    with assms False show ?thesis
      by (simp add: assistantEchoOverlapRatio_def Let_def)
  next
    case two: False
    with False have "assistantEchoOverlapRatio lc lastText history said
        = overlap_loop (long_words (trim (lc said))) 0 (echo_candidates lc lastText history)"
      by (simp add: assistantEchoOverlapRatio_def Let_def)
    with two assms overlap_loop_ge [OF assms(2), of "long_words (trim (lc said))" 0
        "echo_candidates lc lastText history"]
    show ?thesis
      by auto
  qed
qed

lemma fold_max_ge:
  "(q::rat) \<le> fold max xs b \<longleftrightarrow> q \<le> b \<or> (\<exists>x \<in> set xs. q \<le> x)"
  by (induction xs arbitrary: b) (auto simp add: le_max_iff_disj)

lemma fold_max_set:
  "set xs = set ys \<Longrightarrow> fold max xs (b::rat) = fold max ys b"
proof -
  assume eq: "set xs = set ys"
  have "\<And>zs. fold max zs b = Max (set (b # zs))"
    by (simp only: Max.set_eq_fold)
  then show ?thesis
    using eq by simp
qed

lemma amended_overlap_ratio_ge:
  assumes "0 < q"
  shows "amended_overlap_ratio lc lastText history said \<ge> q \<longleftrightarrow>
     2 \<le> length (long_words (trim (lc said)))
     \<and> (\<exists>u \<in> set (lastText # history).
            counted_utterance lc u
            \<and> candidate_ratio (long_words (trim (lc said))) (trim (lc u)) \<ge> q)"
proof (cases "length (long_words (trim (lc said))) < 2")
  case True
  with assms show ?thesis
    by (simp add: amended_overlap_ratio_def)
next
  case False
  then have "amended_overlap_ratio lc lastText history said
      = fold max (map (\<lambda>u. candidate_ratio (long_words (trim (lc said))) (trim (lc u)))
                    (filter (counted_utterance lc) (lastText # history))) 0"
    by (simp add: amended_overlap_ratio_def Let_def candidate_ratio_def match_count_def)
  with False assms show ?thesis
    by (auto simp add: fold_max_ge)
qed

lemma candidates_counted:
  "(\<exists>c \<in> set (echo_candidates lc lastText history). 2 \<le> length (remdups (long_words c)) \<and> P c)
   \<longleftrightarrow> (\<exists>u \<in> set (lastText # history). counted_utterance lc u \<and> P (trim (lc u)))"
proof -
  have "\<And>u. counted_utterance lc u \<Longrightarrow> trim (lc u) \<noteq> []"
    by (auto simp add: counted_utterance_def long_words_empty)
  then show ?thesis
    unfolding echo_candidates_def counted_utterance_def by (auto simp add: long_words_empty)
qed

lemma ratio_meets_bound:
  assumes "0 < q" "q \<le> 9 / 10"
  shows "assistantEchoOverlapRatio lc lastText history said \<ge> q
     \<longleftrightarrow> amended_overlap_ratio lc lastText history said \<ge> q"
  unfolding assistantEchoOverlapRatio_ge [OF assms] amended_overlap_ratio_ge [OF assms(1)]
    candidates_counted ..

lemma match_count_long_words:
  "\<forall>w \<in> set iw. length w > 2 \<Longrightarrow>
   length (filter (\<lambda>w. w \<in> set (long_words c)) iw) = length (filter (\<lambda>w. w \<in> set (split_ws c)) iw)"
  unfolding long_words_def
  by (rule arg_cong [where f = length], rule filter_cong) auto

lemma amended_is_spec_ratio:
  assumes words: "2 \<le> length (long_words (trim (lc said)))"
    and hist: "\<forall>u \<in> set history. counted_utterance lc u"
    and last: "lastText \<in> set history \<or> (lastText = [] \<and> lc [] = [])"
  shows "amended_overlap_ratio lc lastText history said = spec_best_overlap lc history said"
proof -
  let ?iw = "long_words (trim (lc said))"
  let ?f = "\<lambda>u. (of_nat (length (filter (\<lambda>w. w \<in> set (long_words (trim (lc u)))) ?iw)) :: rat)
                        / of_nat (length ?iw)"
  from words have nonempty: "?iw \<noteq> []" by auto
  have long: "\<forall>w \<in> set ?iw. length w > 2"
    by (simp add: long_words_def)
  have spec: "\<And>u. spec_overlap_ratio lc u said = ?f u"
    using nonempty match_count_long_words [OF long]
    by (simp add: spec_overlap_ratio_def Let_def)
  have "\<not> counted_utterance lc []" if "lc [] = []"
    using that by (simp add: counted_utterance_def long_words_def trim_def trimStart_def trimEnd_def)
  with last hist have "set (filter (counted_utterance lc) (lastText # history)) = set history"
    by auto
  then have "set (map ?f (filter (counted_utterance lc) (lastText # history))) = set (map ?f history)"
    by (simp only: set_map)
  then have "fold max (map ?f (filter (counted_utterance lc) (lastText # history))) 0
      = fold max (map ?f history) 0"
    by (rule fold_max_set)
  with words show ?thesis
    by (simp add: amended_overlap_ratio_def spec_best_overlap_def spec Let_def)
qed

lemma strip_loop_skip:
  "\<forall>p \<in> set pre. no_strip_rule normalized p \<Longrightarrow>
   strip_loop said lower normalized (pre @ rest) = strip_loop said lower normalized rest"
  by (induction pre)
     (auto simp add: no_strip_rule_def contained_in_def anchor_position_def Let_def
           split: option.splits if_splits)

lemma strip_loop_none:
  "\<forall>p \<in> set cs. no_strip_rule normalized p \<Longrightarrow> strip_loop said lower normalized cs = said"
  using strip_loop_skip [of cs normalized said lower "[]"] by simp

lemma strip_loop_contained:
  "contained_in normalized c \<Longrightarrow> strip_loop said lower normalized (c # rest) = []"
  by (simp add: contained_in_def)

lemma strip_loop_prefix:
  "\<not> contained_in normalized c \<Longrightarrow> 18 \<le> shared_prefix_len normalized c \<Longrightarrow>
   strip_loop said lower normalized (c # rest)
     = cut_front said lower (shared_prefix_len normalized c)"
  by (auto simp add: contained_in_def cut_front_def Let_def)

lemma strip_loop_anchor:
  "\<not> contained_in normalized c \<Longrightarrow> shared_prefix_len normalized c < 18 \<Longrightarrow>
   anchor_position normalized c = Some idx \<Longrightarrow>
   strip_loop said lower normalized (c # rest)
     = cut_front said lower (idx + length (take 48 c))"
  by (auto simp add: contained_in_def cut_front_def anchor_position_def Let_def
           split: option.splits if_splits)

lemma cut_front_same_length:
  "length lower = length said \<Longrightarrow> cut_front said lower n = trimStart (drop n said)"
  by (simp add: cut_front_def slice_from_def)

lemma onresult_in_window:
  assumes "\<not> stoppedRef s" "stateRef s \<noteq> Idle" "\<not> suspendRecognitionRef s"
    and "ignoreRecognitionUntilRef s \<noteq> 0" "now e < ignoreRecognitionUntilRef s"
  shows "onresult throws lc e r ev s =
     (let said = trim (ev_transcript ev);
          overlap = assistantEchoOverlapRatio lc (lastAssistantTextRef s) (assistantUtterancesRef s) said;
          cleaned = stripAssistantEchoFromText lc (lastAssistantTextRef s) (assistantUtterancesRef s) said
      in if overlap \<ge> 85 / 100 then Normal s
         else if overlap \<ge> 35 / 100 then
           (if cleaned = [] then Normal s else onresult_guarded throws lc e r cleaned (ev_isFinal ev) s)
         else onresult_guarded throws lc e r said (ev_isFinal ev) s)"
  using assms by (simp add: onresult_def echo_sanitize_def Let_def)

text \<open>
  C1, amended. A result arrives inside the ignore window in a live session whose
  recognition is not suspended; \<open>said\<close> is its trimmed transcript, \<open>normalized\<close> the
  lower-cased and trimmed \<open>said\<close>, \<open>utterances\<close> the last answer followed by the entries of
  the history, each lower-cased and trimmed, the empty ones left out. The ratio is 0
  when \<open>normalized\<close> has fewer than two words of length above 2, and otherwise the best
  fraction of these words found among the words of length above 2 of an utterance that
  has at least two distinct such words; every bound in (0, 0.9] is met by the value that
  \<open>assistantEchoOverlapRatio\<close> returns exactly when it is met by this ratio. At 0.85 or
  more the handler returns and changes nothing. In [0.35, 0.85) the text is replaced by
  the result of \<open>stripAssistantEchoFromText\<close>; the handler returns and changes nothing
  when that is empty and goes on with it otherwise. Below 0.35 the handler goes on with
  \<open>said\<close>. The result of \<open>stripAssistantEchoFromText\<close> is decided by the first utterance to
  which a rule applies: it is empty when \<open>normalized\<close> has more than 10 code units and
  occurs in that utterance; otherwise \<open>said\<close> cut after the prefix it shares with the
  utterance when that has at least 18 code units; otherwise \<open>said\<close> cut after the first
  48 code units of the utterance, when these are at least 24 and occur in \<open>normalized\<close>
  at a position up to 5. It is \<open>said\<close> itself when no rule applies to any utterance, and
  empty when \<open>normalized\<close> is empty. To cut after \<open>n\<close> code units is to drop them and the
  white space after them, when lower-casing kept the length of \<open>said\<close>. When \<open>normalized\<close>
  has at least two words of length above 2, every entry of the history has at least two
  distinct such words, and the last answer is an entry of the history or empty, the
  ratio is the best word-overlap ratio in the words of the specification.
\<close>

theorem echo_window_classification:
  assumes "\<not> stoppedRef s" "stateRef s \<noteq> Idle" "\<not> suspendRecognitionRef s"
    and "ignoreRecognitionUntilRef s \<noteq> 0" "now e < ignoreRecognitionUntilRef s"
    and "said = trim (ev_transcript ev)"
    and "normalized = trim (lc said)"
    and "utterances = echo_candidates lc (lastAssistantTextRef s) (assistantUtterancesRef s)"
    and "ratio = amended_overlap_ratio lc (lastAssistantTextRef s) (assistantUtterancesRef s) said"
    and "cleaned = stripAssistantEchoFromText lc (lastAssistantTextRef s) (assistantUtterancesRef s) said"
  shows "(\<forall>q. 0 < q \<and> q \<le> 9 / 10 \<longrightarrow>
           (assistantEchoOverlapRatio lc (lastAssistantTextRef s) (assistantUtterancesRef s) said \<ge> q
              \<longleftrightarrow> ratio \<ge> q))
   \<and> (ratio \<ge> 85 / 100 \<longrightarrow> onresult throws lc e r ev s = Normal s)
   \<and> (35 / 100 \<le> ratio \<and> ratio < 85 / 100 \<and> cleaned = []
        \<longrightarrow> onresult throws lc e r ev s = Normal s)
   \<and> (35 / 100 \<le> ratio \<and> ratio < 85 / 100 \<and> cleaned \<noteq> []
        \<longrightarrow> onresult throws lc e r ev s = onresult_guarded throws lc e r cleaned (ev_isFinal ev) s)
   \<and> (ratio < 35 / 100
        \<longrightarrow> onresult throws lc e r ev s = onresult_guarded throws lc e r said (ev_isFinal ev) s)
   \<and> (normalized = [] \<longrightarrow> cleaned = [])
   \<and> (normalized \<noteq> [] \<and> (\<forall>u \<in> set utterances. no_strip_rule normalized u) \<longrightarrow> cleaned = said)
   \<and> (normalized \<noteq> [] \<and> utterances = pre @ u # post \<and> (\<forall>p \<in> set pre. no_strip_rule normalized p)
        \<longrightarrow> (contained_in normalized u \<longrightarrow> cleaned = [])
          \<and> (\<not> contained_in normalized u \<and> 18 \<le> shared_prefix_len normalized u
               \<longrightarrow> cleaned = cut_front said (lc said) (shared_prefix_len normalized u))
          \<and> (\<not> contained_in normalized u \<and> shared_prefix_len normalized u < 18
              \<and> anchor_position normalized u = Some idx
               \<longrightarrow> cleaned = cut_front said (lc said) (idx + length (take 48 u))))
   \<and> (length (lc said) = length said \<longrightarrow> cut_front said (lc said) n = trimStart (drop n said))
   \<and> (2 \<le> length (long_words normalized)
       \<and> (\<forall>u \<in> set (assistantUtterancesRef s). counted_utterance lc u)
       \<and> (lastAssistantTextRef s \<in> set (assistantUtterancesRef s)
            \<or> (lastAssistantTextRef s = [] \<and> lc [] = []))
        \<longrightarrow> ratio = spec_best_overlap lc (assistantUtterancesRef s) said)"
proof -
  let ?overlap = "assistantEchoOverlapRatio lc (lastAssistantTextRef s) (assistantUtterancesRef s) said"
  have bounds: "\<forall>q. 0 < q \<and> q \<le> 9 / 10 \<longrightarrow> (?overlap \<ge> q \<longleftrightarrow> ratio \<ge> q)"
    unfolding assms(9) using ratio_meets_bound by blast
  have high: "?overlap \<ge> 85 / 100 \<longleftrightarrow> ratio \<ge> 85 / 100"
    unfolding assms(9) by (rule ratio_meets_bound) simp_all
  have low: "?overlap \<ge> 35 / 100 \<longleftrightarrow> ratio \<ge> 35 / 100"
    unfolding assms(9) by (rule ratio_meets_bound) simp_all
  have handler: "onresult throws lc e r ev s =
     (if ratio \<ge> 85 / 100 then Normal s
      else if ratio \<ge> 35 / 100 then
        (if cleaned = [] then Normal s else onresult_guarded throws lc e r cleaned (ev_isFinal ev) s)
      else onresult_guarded throws lc e r said (ev_isFinal ev) s)"
    using onresult_in_window [OF assms(1-5), of throws lc r ev] assms(6,10) high low
    by (simp add: Let_def)
  have split: "(ratio \<ge> 85 / 100 \<longrightarrow> onresult throws lc e r ev s = Normal s)
   \<and> (35 / 100 \<le> ratio \<and> ratio < 85 / 100 \<and> cleaned = []
        \<longrightarrow> onresult throws lc e r ev s = Normal s)
   \<and> (35 / 100 \<le> ratio \<and> ratio < 85 / 100 \<and> cleaned \<noteq> []
        \<longrightarrow> onresult throws lc e r ev s = onresult_guarded throws lc e r cleaned (ev_isFinal ev) s)
   \<and> (ratio < 35 / 100
        \<longrightarrow> onresult throws lc e r ev s = onresult_guarded throws lc e r said (ev_isFinal ev) s)"
    unfolding handler by auto
  have empty: "normalized = [] \<longrightarrow> cleaned = []"
    by (simp add: assms(7,10) stripAssistantEchoFromText_def Let_def)
  have loop: "normalized \<noteq> [] \<longrightarrow> cleaned = strip_loop said (lc said) normalized utterances"
    by (simp add: assms(7,8,10) stripAssistantEchoFromText_def Let_def)
  have none: "normalized \<noteq> [] \<and> (\<forall>u \<in> set utterances. no_strip_rule normalized u) \<longrightarrow> cleaned = said"
    using loop strip_loop_none [of utterances normalized said "lc said"] by simp
  have first: "normalized \<noteq> [] \<and> utterances = pre @ u # post \<and> (\<forall>p \<in> set pre. no_strip_rule normalized p)
        \<longrightarrow> (contained_in normalized u \<longrightarrow> cleaned = [])
          \<and> (\<not> contained_in normalized u \<and> 18 \<le> shared_prefix_len normalized u
               \<longrightarrow> cleaned = cut_front said (lc said) (shared_prefix_len normalized u))
          \<and> (\<not> contained_in normalized u \<and> shared_prefix_len normalized u < 18
              \<and> anchor_position normalized u = Some idx
               \<longrightarrow> cleaned = cut_front said (lc said) (idx + length (take 48 u)))"
  proof (intro impI, elim conjE)
    assume "normalized \<noteq> []" and "utterances = pre @ u # post"
      and "\<forall>p \<in> set pre. no_strip_rule normalized p"
    with loop strip_loop_skip [of pre normalized said "lc said" "u # post"]
    have "cleaned = strip_loop said (lc said) normalized (u # post)"
      by simp
    then show "(contained_in normalized u \<longrightarrow> cleaned = [])
          \<and> (\<not> contained_in normalized u \<and> 18 \<le> shared_prefix_len normalized u
               \<longrightarrow> cleaned = cut_front said (lc said) (shared_prefix_len normalized u))
          \<and> (\<not> contained_in normalized u \<and> shared_prefix_len normalized u < 18
              \<and> anchor_position normalized u = Some idx
               \<longrightarrow> cleaned = cut_front said (lc said) (idx + length (take 48 u)))"
      using strip_loop_contained [of normalized u said "lc said" post]
        strip_loop_prefix [of normalized u said "lc said" post]
        strip_loop_anchor [of normalized u idx said "lc said" post]
      by (simp only:) blast
  qed
  have cut: "length (lc said) = length said \<longrightarrow> cut_front said (lc said) n = trimStart (drop n said)"
    using cut_front_same_length [of "lc said" said n] by blast
  have spec: "2 \<le> length (long_words normalized)
       \<and> (\<forall>u \<in> set (assistantUtterancesRef s). counted_utterance lc u)
       \<and> (lastAssistantTextRef s \<in> set (assistantUtterancesRef s)
            \<or> (lastAssistantTextRef s = [] \<and> lc [] = []))
        \<longrightarrow> ratio = spec_best_overlap lc (assistantUtterancesRef s) said"
    unfolding assms(7,9)
    using amended_is_spec_ratio [of lc said "assistantUtterancesRef s" "lastAssistantTextRef s"]
    by blast
  from split empty none first cut spec show ?thesis
    by (intro conjI bounds) blast+
qed

lemma lower_balance:
  "trim (ascii_toLowerCase balance_utterance) = js ''your balance is five hundred rupees''"
  "trim (ascii_toLowerCase balance_and_ticket)
     = js ''your balance is five hundred rupees and i need a ticket''"
  "trim balance_and_ticket = balance_and_ticket"
  unfolding balance_utterance_def balance_and_ticket_def by code_simp+

lemma shared_prefix_balance:
  "shared_prefix_len (js ''your balance is five hundred rupees and i need a ticket'')
     (js ''your balance is five hundred rupees'') = 35"
  "\<not> contained_in (js ''your balance is five hundred rupees and i need a ticket'')
       (js ''your balance is five hundred rupees'')"
  "js ''your balance is five hundred rupees and i need a ticket'' \<noteq> []"
  "length (ascii_toLowerCase balance_and_ticket) = length balance_and_ticket"
  "trimStart (drop 35 balance_and_ticket) = js ''and I need a ticket''"
  "js ''and I need a ticket'' \<noteq> []"
  unfolding balance_and_ticket_def by code_simp+

lemma amended_balance_ticket:
  "amended_overlap_ratio ascii_toLowerCase balance_utterance [balance_utterance] balance_and_ticket
     = 5 / 8"
  "spec_best_overlap ascii_toLowerCase [balance_utterance] balance_and_ticket = 5 / 8"
  "2 \<le> length (long_words (js ''your balance is five hundred rupees and i need a ticket''))"
  "counted_utterance ascii_toLowerCase balance_utterance"
  unfolding balance_utterance_def balance_and_ticket_def by code_simp+

theorem echo_window_classification_witness:
  "\<not> stoppedRef after_balance_session \<and> stateRef after_balance_session \<noteq> Idle
   \<and> \<not> suspendRecognitionRef after_balance_session
   \<and> ignoreRecognitionUntilRef after_balance_session \<noteq> 0
   \<and> now \<lparr>now = 5400, uuid = 4, controller = 10\<rparr> < ignoreRecognitionUntilRef after_balance_session
   \<and> trim (ev_transcript final_balance_and_ticket) = balance_and_ticket
   \<and> echo_candidates ascii_toLowerCase (lastAssistantTextRef after_balance_session)
        (assistantUtterancesRef after_balance_session)
       = [] @ js ''your balance is five hundred rupees'' # [js ''your balance is five hundred rupees'']
   \<and> amended_overlap_ratio ascii_toLowerCase (lastAssistantTextRef after_balance_session)
        (assistantUtterancesRef after_balance_session) balance_and_ticket = 5 / 8
   \<and> spec_best_overlap ascii_toLowerCase (assistantUtterancesRef after_balance_session)
        balance_and_ticket = 5 / 8
   \<and> assistantEchoOverlapRatio ascii_toLowerCase (lastAssistantTextRef after_balance_session)
        (assistantUtterancesRef after_balance_session) balance_and_ticket \<ge> 35 / 100
   \<and> \<not> assistantEchoOverlapRatio ascii_toLowerCase (lastAssistantTextRef after_balance_session)
        (assistantUtterancesRef after_balance_session) balance_and_ticket \<ge> 85 / 100
   \<and> shared_prefix_len (trim (ascii_toLowerCase balance_and_ticket))
        (js ''your balance is five hundred rupees'') = 35
   \<and> stripAssistantEchoFromText ascii_toLowerCase (lastAssistantTextRef after_balance_session)
        (assistantUtterancesRef after_balance_session) balance_and_ticket
       = js ''and I need a ticket''
   \<and> onresult no_throw ascii_toLowerCase \<lparr>now = 5400, uuid = 4, controller = 10\<rparr> 1
        final_balance_and_ticket after_balance_session
       = onresult_guarded no_throw ascii_toLowerCase \<lparr>now = 5400, uuid = 4, controller = 10\<rparr> 1
           (js ''and I need a ticket'') True after_balance_session"
proof -
  let ?last = "lastAssistantTextRef after_balance_session"
  let ?hist = "assistantUtterancesRef after_balance_session"
  let ?e = "\<lparr>now = 5400, uuid = 4, controller = 10\<rparr>"
  let ?lower = "js ''your balance is five hundred rupees''"
  have cells: "\<not> stoppedRef after_balance_session" "stateRef after_balance_session \<noteq> Idle"
    "\<not> suspendRecognitionRef after_balance_session"
    "ignoreRecognitionUntilRef after_balance_session \<noteq> 0"
    "now ?e < ignoreRecognitionUntilRef after_balance_session"
    by (simp_all add: after_balance_session_def initial_session_def)
  have refs: "?last = balance_utterance" "?hist = [balance_utterance]"
    by (simp_all add: after_balance_session_def initial_session_def)
  have said: "trim (ev_transcript final_balance_and_ticket) = balance_and_ticket"
    by (simp add: final_balance_and_ticket_def lower_balance)
  have final: "ev_isFinal final_balance_and_ticket"
    by (simp add: final_balance_and_ticket_def)
  have utterances: "echo_candidates ascii_toLowerCase ?last ?hist = [] @ ?lower # [?lower]"
    by (simp add: refs echo_candidates_def lower_balance js_def)
  have ratio: "amended_overlap_ratio ascii_toLowerCase ?last ?hist balance_and_ticket = 5 / 8"
    by (simp add: refs amended_balance_ticket)
  note inst = echo_window_classification
    [where s = after_balance_session and e = ?e and ev = final_balance_and_ticket
       and throws = no_throw and r = 1 and lc = ascii_toLowerCase
       and pre = "[]" and u = ?lower and post = "[?lower]" and n = 35,
     OF cells said [symmetric] refl refl refl refl]
  note bound = inst [THEN conjunct1, rule_format]
  note mid = inst [THEN conjunct2, THEN conjunct2, THEN conjunct2, THEN conjunct1]
  note first = inst [THEN conjunct2, THEN conjunct2, THEN conjunct2, THEN conjunct2,
    THEN conjunct2, THEN conjunct2, THEN conjunct2, THEN conjunct1]
  note cut = inst [THEN conjunct2, THEN conjunct2, THEN conjunct2, THEN conjunct2,
    THEN conjunct2, THEN conjunct2, THEN conjunct2, THEN conjunct2, THEN conjunct1]
  note same = inst [THEN conjunct2, THEN conjunct2, THEN conjunct2, THEN conjunct2,
    THEN conjunct2, THEN conjunct2, THEN conjunct2, THEN conjunct2, THEN conjunct2]
  have bounds:
    "assistantEchoOverlapRatio ascii_toLowerCase ?last ?hist balance_and_ticket \<ge> 35 / 100"
    "\<not> assistantEchoOverlapRatio ascii_toLowerCase ?last ?hist balance_and_ticket \<ge> 85 / 100"
    using bound [of "35 / 100"] bound [of "85 / 100"] unfolding ratio by simp_all
  have "stripAssistantEchoFromText ascii_toLowerCase ?last ?hist balance_and_ticket
      = cut_front balance_and_ticket (ascii_toLowerCase balance_and_ticket) 35"
    using first utterances shared_prefix_balance unfolding lower_balance by simp
  moreover have "cut_front balance_and_ticket (ascii_toLowerCase balance_and_ticket) 35
      = trimStart (drop 35 balance_and_ticket)"
    using cut shared_prefix_balance by blast
  ultimately have cleaned: "stripAssistantEchoFromText ascii_toLowerCase ?last ?hist
      balance_and_ticket = js ''and I need a ticket''"
    by (simp add: shared_prefix_balance)
  have spec: "spec_best_overlap ascii_toLowerCase ?hist balance_and_ticket = 5 / 8"
    using same amended_balance_ticket(1,3,4) unfolding lower_balance refs by simp
  have "onresult no_throw ascii_toLowerCase ?e 1 final_balance_and_ticket
        after_balance_session
       = onresult_guarded no_throw ascii_toLowerCase ?e 1 (js ''and I need a ticket'')
           (ev_isFinal final_balance_and_ticket) after_balance_session"
    using mid shared_prefix_balance unfolding ratio cleaned by simp
  with final have handler: "onresult no_throw ascii_toLowerCase ?e 1 final_balance_and_ticket
        after_balance_session
       = onresult_guarded no_throw ascii_toLowerCase ?e 1 (js ''and I need a ticket'') True
           after_balance_session"
    by simp
  have prefix: "shared_prefix_len (trim (ascii_toLowerCase balance_and_ticket)) ?lower = 35"
    by (simp add: lower_balance shared_prefix_balance)
  from cells said utterances ratio spec bounds prefix cleaned handler show ?thesis
    by (intro conjI)
qed

end
